theory Spec2Isabelle
  imports Complex_Main
begin

section \<open>The recommendation engine of \<^verbatim>\<open>query_functions.py\<close>\<close>

text \<open>
  A shallow embedding of the class \<^verbatim>\<open>SHLRecommendationEngine\<close>. Conventions:
  \<^item> a Python \<^verbatim>\<open>str\<close> is a \<^typ>\<open>string\<close>, one \<^typ>\<open>char\<close> per code point; the
    character classes below (\<^verbatim>\<open>lower\<close>, \<^verbatim>\<open>isspace\<close>, the regular expression
    class \<^verbatim>\<open>\w\<close>) are those of Python on ASCII text;
  \<^item> a Python \<^verbatim>\<open>int\<close> is an \<^typ>\<open>int\<close>;
  \<^item> a float is a \<^typ>\<open>real\<close>: rounding errors of the arithmetic and the values
    \<^verbatim>\<open>nan\<close> and \<^verbatim>\<open>inf\<close> are outside the model, and a division whose divisor
    could be zero in the source is guarded by a hypothesis where it matters;
  \<^item> an exception that leaves a method is the \<open>Inl\<close> of a sum type;
  \<^item> the sentence encoder, the HTTP client, the HTML parser, the Gemini client and
    \<^verbatim>\<open>np.argsort\<close> are libraries: they are parameters of the model.
\<close>

subsection \<open>Strings\<close>

definition lower_char :: "char \<Rightarrow> char" where
  "lower_char c =
     (case map_of (zip ''ABCDEFGHIJKLMNOPQRSTUVWXYZ'' ''abcdefghijklmnopqrstuvwxyz'') c of
        Some l \<Rightarrow> l
      | None \<Rightarrow> c)"

text \<open>\<^verbatim>\<open>s.lower()\<close>\<close>

definition lower :: "string \<Rightarrow> string" where
  "lower s = map lower_char s"

text \<open>\<^verbatim>\<open>c.isspace()\<close>, also the class \<^verbatim>\<open>\s\<close>: tab to carriage return, the four
  separators \<^verbatim>\<open>\x1c\<close> to \<^verbatim>\<open>\x1f\<close>, and the space.\<close>

definition isspace :: "char \<Rightarrow> bool" where
  "isspace c = (let n = (of_char c :: nat) in (9 \<le> n \<and> n \<le> 13) \<or> (28 \<le> n \<and> n \<le> 32))"

text \<open>The class \<^verbatim>\<open>\w\<close>: digits, letters and the underscore.\<close>

definition is_word :: "char \<Rightarrow> bool" where
  "is_word c =
     (let n = (of_char c :: nat)
      in (48 \<le> n \<and> n \<le> 57) \<or> (65 \<le> n \<and> n \<le> 90) \<or> n = 95 \<or> (97 \<le> n \<and> n \<le> 122))"

text \<open>\<^verbatim>\<open>s.split()\<close>: the maximal runs of characters that are not whitespace. The
  first argument is the token being read.\<close>

fun split_acc :: "string \<Rightarrow> string \<Rightarrow> string list" where
  "split_acc w [] = (if w = [] then [] else [w])"
| "split_acc w (c # cs) =
     (if isspace c then (if w = [] then split_acc [] cs else w # split_acc [] cs)
      else split_acc (w @ [c]) cs)"

definition split :: "string \<Rightarrow> string list" where
  "split s = split_acc [] s"

text \<open>\<^verbatim>\<open>s.startswith(p)\<close>\<close>

fun startswith :: "string \<Rightarrow> string \<Rightarrow> bool" where
  "startswith s [] = True"
| "startswith [] (p # ps) = False"
| "startswith (c # cs) (p # ps) = (c = p \<and> startswith cs ps)"

text \<open>\<^verbatim>\<open>t in s\<close> on strings: \<open>t\<close> occurs in \<open>s\<close> as a substring.\<close>

fun str_in :: "string \<Rightarrow> string \<Rightarrow> bool" where
  "str_in t [] = (t = [])"
| "str_in t (c # cs) = (startswith (c # cs) t \<or> str_in t cs)"

text \<open>\<^verbatim>\<open>sep.join(xs)\<close>\<close>

fun join :: "string \<Rightarrow> string list \<Rightarrow> string" where
  "join sep [] = []"
| "join sep [x] = x"
| "join sep (x # y # ys) = x @ sep @ join sep (y # ys)"

text \<open>\<^verbatim>\<open>re.sub(r'\s+', ' ', text)\<close>: every maximal run of whitespace becomes one
  space. The flag says that the character before was whitespace.\<close>

fun collapse_acc :: "bool \<Rightarrow> string \<Rightarrow> string" where
  "collapse_acc b [] = []"
| "collapse_acc b (c # cs) =
     (if isspace c then (if b then collapse_acc True cs else CHR '' '' # collapse_acc True cs)
      else c # collapse_acc False cs)"

definition collapse_ws :: "string \<Rightarrow> string" where
  "collapse_ws s = collapse_acc False s"

subsection \<open>Slices, sorting, rounding\<close>

text \<open>\<^verbatim>\<open>xs[:k]\<close>, which is also \<^verbatim>\<open>df.head(k)\<close>: the first \<open>k\<close> entries, and all but
  the last \<open>-k\<close> entries when \<open>k\<close> is negative.\<close>

definition slice_to :: "int \<Rightarrow> 'a list \<Rightarrow> 'a list" where
  "slice_to k xs = (if 0 \<le> k then take (nat k) xs else take (length xs - nat (- k)) xs)"

text \<open>\<^verbatim>\<open>np.argsort\<close>, on the integer scores of the keyword strategy and on the float
  similarities of the vector strategy. The source calls it with the default kind of
  sort, which is not stable: numpy gives the positions in ascending order of their
  values and leaves open the order of positions with equal values. So the function is
  a parameter, and what numpy promises of it is \<open>numpy_ok\<close> below.\<close>

record numpy =
  argsort_int :: "int list \<Rightarrow> nat list"
  argsort_float :: "real list \<Rightarrow> nat list"

text \<open>Rounding to the nearest integer, a tie going to the even neighbour.\<close>

definition round_half_even :: "real \<Rightarrow> int" where
  "round_half_even y =
     (let f = \<lfloor>y\<rfloor>; d = y - of_int f
      in if d < 1 / 2 then f else if 1 / 2 < d then f + 1 else if even f then f else f + 1)"

text \<open>\<^verbatim>\<open>round(x, 1)\<close>\<close>

definition round1 :: "real \<Rightarrow> real" where
  "round1 x = of_int (round_half_even (x * 10)) / 10"

text \<open>The exceptions that leave a method of the engine. \<^verbatim>\<open>max(xs)\<close> raises
  \<^verbatim>\<open>ValueError\<close> on an empty list.\<close>

datatype py_error = ValueError | IndexError

fun py_max :: "int list \<Rightarrow> py_error + int" where
  "py_max [] = Inl ValueError"
| "py_max (x # xs) = Inr (fold max xs x)"

subsection \<open>The catalog and the engine\<close>

text \<open>One row of the catalog, with the columns that the engine reads. \<open>description\<close>
  is \<^verbatim>\<open>row.get('Description', '')\<close>; \<open>duration\<close> is \<^verbatim>\<open>int(row['Duration'])\<close>.\<close>

record row =
  assessment_name :: string
  test_type :: string
  skills :: string
  description :: string
  duration :: int
  remote_testing_support :: string

text \<open>A row of a result frame: the catalog row, its index label (the position in the
  catalog) and the added column \<^verbatim>\<open>Relevance Score\<close>.\<close>

record result =
  index :: nat
  entry :: row
  relevance_score :: real

text \<open>The dictionary that \<^verbatim>\<open>extract_job_requirements\<close> returns.\<close>

record job_requirements =
  req_skills :: "string list"
  experience_level :: string
  req_test_types :: "string list"
  duration_preference :: string
  key_responsibilities :: "string list"

text \<open>The engine after \<^verbatim>\<open>__init__\<close>. \<open>model\<close> is the sentence encoder, \<open>None\<close> when
  the library or the model could not be loaded. \<open>gemini_client\<close> stands for the whole
  \<^verbatim>\<open>try\<close> block of \<^verbatim>\<open>extract_job_requirements\<close>: it maps the text to the parsed
  answer, or to \<open>None\<close> when the call or the parsing raised.\<close>

record engine =
  catalog :: "row list"
  model :: "(string \<Rightarrow> real list) option"
  embeddings :: "real list list option"
  gemini_client :: "(string \<Rightarrow> job_requirements option) option"

text \<open>\<^verbatim>\<open>_get_combined_text\<close>\<close>

definition get_combined_text :: "row \<Rightarrow> string" where
  "get_combined_text r =
     assessment_name r @ '' '' @ test_type r @ '' '' @ skills r @ '' '' @ description r"

text \<open>\<^verbatim>\<open>__init__\<close> with \<^verbatim>\<open>_initialize_model\<close> and \<^verbatim>\<open>_compute_embeddings\<close>: the
  embeddings are the encodings of the combined texts, in catalog order.\<close>

definition init_engine ::
  "row list \<Rightarrow> (string \<Rightarrow> real list) option \<Rightarrow> (string \<Rightarrow> job_requirements option) option \<Rightarrow> engine"
where
  "init_engine cat enc gem =
     \<lparr>catalog = cat, model = enc,
      embeddings = (case enc of None \<Rightarrow> None
                    | Some f \<Rightarrow> Some (map (\<lambda>r. f (get_combined_text r)) cat)),
      gemini_client = gem\<rparr>"

subsection \<open>Ranking\<close>

text \<open>\<^verbatim>\<open>_keyword_search\<close>. The score of a row is the number of query terms, counted
  with their repetitions, that occur in the lowered combined text. \<^verbatim>\<open>max(scores)\<close>
  raises when the catalog has no row. \<^verbatim>\<open>np.argsort(scores)\<close> returns positions of
  \<open>scores\<close>, which has one entry for each row, so that \<^verbatim>\<open>iloc\<close> and \<^verbatim>\<open>scores[i]\<close>
  find every position they are given.\<close>

definition keyword_scores :: "row list \<Rightarrow> string list \<Rightarrow> int list" where
  "keyword_scores cat query_terms =
     map (\<lambda>r. int (length (filter (\<lambda>term. str_in term (lower (get_combined_text r))) query_terms)))
       cat"

definition keyword_search :: "numpy \<Rightarrow> engine \<Rightarrow> string \<Rightarrow> int \<Rightarrow> py_error + result list" where
  "keyword_search np e query top_k =
     (let query_terms = split (lower query);
          scores = keyword_scores (catalog e) query_terms;
          top_indices = slice_to top_k (rev (argsort_int np scores))
      in case py_max scores of
           Inl err \<Rightarrow> Inl err
         | Inr m \<Rightarrow>
             (let max_score = (if m > 0 then m else 1)
              in Inr (map (\<lambda>i. \<lparr>index = i, entry = catalog e ! i,
                                relevance_score =
                                  round1 (real_of_int (scores ! i) / real_of_int max_score * 100)\<rparr>)
                        top_indices)))"

text \<open>\<^verbatim>\<open>np.dot\<close> of two vectors and \<^verbatim>\<open>np.linalg.norm\<close>.\<close>

definition dot :: "real list \<Rightarrow> real list \<Rightarrow> real" where
  "dot xs ys = sum_list (map2 (*) xs ys)"

definition vec_norm :: "real list \<Rightarrow> real" where
  "vec_norm xs = sqrt (sum_list (map (\<lambda>x. x * x) xs))"

definition cosine_similarities :: "real list list \<Rightarrow> real list \<Rightarrow> real list" where
  "cosine_similarities embs q = map (\<lambda>v. dot v q / (vec_norm v * vec_norm q)) embs"

text \<open>\<^verbatim>\<open>semantic_search\<close>. \<^verbatim>\<open>iloc\<close> raises \<^verbatim>\<open>IndexError\<close> on a position outside the
  catalog, which needs more embeddings than rows.\<close>

definition semantic_search :: "numpy \<Rightarrow> engine \<Rightarrow> string \<Rightarrow> int \<Rightarrow> py_error + result list" where
  "semantic_search np e query top_k =
     (case (model e, embeddings e) of
        (Some encode, Some embs) \<Rightarrow>
          (let query_embedding = encode query;
               similarities = cosine_similarities embs query_embedding;
               top_indices = slice_to top_k (rev (argsort_float np similarities))
           in if list_all (\<lambda>i. i < length (catalog e)) top_indices
              then Inr (map (\<lambda>i. \<lparr>index = i, entry = catalog e ! i,
                                  relevance_score = round1 (similarities ! i * 100)\<rparr>)
                          top_indices)
              else Inl IndexError)
      | _ \<Rightarrow> keyword_search np e query top_k)"

subsection \<open>Filters\<close>

definition filter_by_duration :: "result list \<Rightarrow> int \<Rightarrow> result list" where
  "filter_by_duration df max_duration = filter (\<lambda>r. duration (entry r) \<le> max_duration) df"

definition filter_by_test_type :: "result list \<Rightarrow> string list \<Rightarrow> result list" where
  "filter_by_test_type df test_types =
     (if test_types = [] then df else filter (\<lambda>r. test_type (entry r) \<in> set test_types) df)"

definition filter_by_remote :: "result list \<Rightarrow> bool \<Rightarrow> result list" where
  "filter_by_remote df remote_only =
     (if remote_only then filter (\<lambda>r. remote_testing_support (entry r) = ''Yes'') df else df)"

subsection \<open>Requirement extraction\<close>

text \<open>The three patterns of \<^verbatim>\<open>skill_patterns\<close>. Each is \<^verbatim>\<open>\b(a|b|...)\b\<close>, given here
  by its alternatives in the order in which the matcher tries them;
  \<^verbatim>\<open>node\.?js\<close> tries the dot first.\<close>

definition skill_patterns :: "string list list" where
  "skill_patterns =
     [[''python'', ''java'', ''javascript'', ''sql'', ''react'', ''node.js'', ''nodejs'',
       ''angular'', ''typescript''],
      [''problem solving'', ''communication'', ''teamwork'', ''leadership'', ''analytical''],
      [''data analysis'', ''machine learning'', ''cloud'', ''aws'', ''azure'', ''gcp'']]"

text \<open>\<^verbatim>\<open>\b\<close> between two neighbours, \<open>None\<close> being an end of the text.\<close>

definition word_boundary :: "char option \<Rightarrow> char option \<Rightarrow> bool" where
  "word_boundary prev nxt =
     ((case prev of None \<Rightarrow> False | Some c \<Rightarrow> is_word c)
        \<noteq> (case nxt of None \<Rightarrow> False | Some c \<Rightarrow> is_word c))"

text \<open>The match of \<^verbatim>\<open>\b(a|b|...)\b\<close> that starts at the head of \<open>s\<close>, where \<open>prev\<close>
  is the character in front of it: the first alternative, none of them empty, that
  the text starts with and that a word boundary follows.\<close>

definition match_here :: "string list \<Rightarrow> char option \<Rightarrow> string \<Rightarrow> string option" where
  "match_here alts prev s =
     (if word_boundary prev (case s of [] \<Rightarrow> None | c # _ \<Rightarrow> Some c)
      then find (\<lambda>a. a \<noteq> [] \<and> startswith s a \<and>
                   word_boundary (Some (last a))
                     (case drop (length a) s of [] \<Rightarrow> None | c # _ \<Rightarrow> Some c)) alts
      else None)"

text \<open>\<^verbatim>\<open>re.findall\<close> for such a pattern: the matches from left to right, the search
  going on behind each match. \<open>skip\<close> counts the characters of the last match that are
  still to be passed.\<close>

fun findall_from :: "string list \<Rightarrow> nat \<Rightarrow> char option \<Rightarrow> string \<Rightarrow> string list" where
  "findall_from alts skip prev [] = []"
| "findall_from alts (Suc skip) prev (c # cs) = findall_from alts skip (Some c) cs"
| "findall_from alts 0 prev (c # cs) =
     (case match_here alts prev (c # cs) of
        Some m \<Rightarrow> m # findall_from alts (length m - 1) (Some c) cs
      | None \<Rightarrow> findall_from alts 0 (Some c) cs)"

definition findall :: "string list \<Rightarrow> string \<Rightarrow> string list" where
  "findall alts s = findall_from alts 0 None s"

text \<open>The part of \<^verbatim>\<open>extract_job_requirements\<close> behind the \<^verbatim>\<open>try\<close> block.
  \<^verbatim>\<open>list(set(skills))\<close> keeps one copy of each match, in an order that Python does
  not fix; here it is the order of \<^const>\<open>remdups\<close>.\<close>

definition heuristic_requirements :: "string \<Rightarrow> job_requirements" where
  "heuristic_requirements text =
     (let text_lower = lower text;
          skills = concat (map (\<lambda>pattern. findall pattern text_lower) skill_patterns)
      in \<lparr>req_skills = remdups skills, experience_level = ''mid'',
          req_test_types = [''Coding'', ''Cognitive''], duration_preference = ''medium'',
          key_responsibilities = []\<rparr>)"

definition extract_job_requirements :: "engine \<Rightarrow> string \<Rightarrow> job_requirements" where
  "extract_job_requirements e text =
     (case gemini_client e of
        None \<Rightarrow> heuristic_requirements text
      | Some ask \<Rightarrow>
          (case ask text of Some answer \<Rightarrow> answer | None \<Rightarrow> heuristic_requirements text))"

subsection \<open>Fetching a page\<close>

text \<open>The libraries behind \<^verbatim>\<open>extract_text_from_url\<close>. \<open>http_get\<close> is
  \<^verbatim>\<open>requests.get\<close> with \<^verbatim>\<open>raise_for_status\<close>: the body of the response, or the
  message of the exception raised. \<open>html_text\<close> is the parsing of the body, the removal
  of the five kinds of tags and \<^verbatim>\<open>get_text\<close>: the text, or the message of the
  exception raised.\<close>

record web =
  http_get :: "string \<Rightarrow> string + string"
  html_text :: "string \<Rightarrow> string + string"

definition extract_text_from_url :: "web \<Rightarrow> string \<Rightarrow> string" where
  "extract_text_from_url w url =
     (case http_get w url of
        Inl e \<Rightarrow> ''Error extracting text: '' @ e
      | Inr body \<Rightarrow>
          (case html_text w body of
             Inl e \<Rightarrow> ''Error extracting text: '' @ e
           | Inr text \<Rightarrow> take 5000 (collapse_ws text)))"

subsection \<open>The pipeline\<close>

text \<open>The truth value of an optional string or list (\<^verbatim>\<open>None\<close> and the empty one are
  false) and of an optional integer (\<^verbatim>\<open>None\<close> and \<open>0\<close> are false).\<close>

definition truthy :: "'a list option \<Rightarrow> bool" where
  "truthy x = (case x of None \<Rightarrow> False | Some v \<Rightarrow> v \<noteq> [])"

definition truthy_int :: "int option \<Rightarrow> bool" where
  "truthy_int x = (case x of None \<Rightarrow> False | Some v \<Rightarrow> v \<noteq> 0)"

record response =
  recommendations :: "result list"
  job_requirements :: "job_requirements option"
  search_query :: "string option"
  total_found :: nat

text \<open>The block \<^verbatim>\<open>if url:\<close> of \<^verbatim>\<open>get_recommendations\<close>: the search query, the
  job requirements and the test types after it.\<close>

definition read_url ::
  "web \<Rightarrow> engine \<Rightarrow> string option \<Rightarrow> string option \<Rightarrow> string list option
     \<Rightarrow> string option \<times> job_requirements option \<times> string list option"
where
  "read_url w e query url test_types =
     (if truthy url then
        (let extracted_text = extract_text_from_url w (the url)
         in if \<not> startswith extracted_text ''Error'' then
              (let reqs = extract_job_requirements e extracted_text
               in if req_skills reqs \<noteq> [] then
                    (Some (join '' '' (req_skills reqs)), Some reqs,
                     if req_test_types reqs \<noteq> [] \<and> \<not> truthy test_types
                     then Some (req_test_types reqs) else test_types)
                  else (query, Some reqs, test_types))
            else (query, None, test_types))
      else (query, None, test_types))"

text \<open>\<^verbatim>\<open>catalog.head(top_k)\<close> with the score \<open>100.0\<close> in every row.\<close>

definition catalog_head :: "engine \<Rightarrow> int \<Rightarrow> result list" where
  "catalog_head e top_k =
     map (\<lambda>i. \<lparr>index = i, entry = catalog e ! i, relevance_score = 100\<rparr>)
       (slice_to top_k [0..<length (catalog e)])"

definition get_recommendations ::
  "web \<Rightarrow> numpy \<Rightarrow> engine \<Rightarrow> string option \<Rightarrow> string option \<Rightarrow> int option
     \<Rightarrow> string list option \<Rightarrow> bool \<Rightarrow> int \<Rightarrow> py_error + response"
where
  "get_recommendations w np e query url max_duration test_types remote_only top_k =
     (case read_url w e query url test_types of
        (squery, reqs, ttypes) \<Rightarrow>
          (case (if \<not> truthy squery then Inr (catalog_head e top_k)
                 else semantic_search np e (the squery) (min (top_k * 2) 50)) of
             Inl err \<Rightarrow> Inl err
           | Inr ranked \<Rightarrow>
               (let by_duration = (if truthy_int max_duration
                                   then filter_by_duration ranked (the max_duration) else ranked);
                    by_type = (if truthy ttypes
                               then filter_by_test_type by_duration (the ttypes) else by_duration);
                    by_remote = (if remote_only
                                 then filter_by_remote by_type remote_only else by_type);
                    results = slice_to top_k by_remote
                in Inr \<lparr>recommendations = results, job_requirements = reqs,
                        search_query = squery, total_found = length results\<rparr>)))"

subsection \<open>Notions used in the statements\<close>

text \<open>What numpy promises of \<^verbatim>\<open>np.argsort(xs)\<close>: every position of \<open>xs\<close> once, in
  ascending order of the values.\<close>

definition is_argsort :: "'a::linorder list \<Rightarrow> nat list \<Rightarrow> bool" where
  "is_argsort xs p = (distinct p \<and> set p = {0..<length xs} \<and> sorted (map (\<lambda>i. xs ! i) p))"

definition numpy_ok :: "numpy \<Rightarrow> bool" where
  "numpy_ok np =
     ((\<forall>xs. is_argsort xs (argsort_int np xs)) \<and> (\<forall>xs. is_argsort xs (argsort_float np xs)))"

text \<open>The list that \<^const>\<open>semantic_search\<close> sorts: the cosine similarities when the
  encoder is loaded, the numbers of matching query terms otherwise.\<close>

definition raw_scores :: "engine \<Rightarrow> string \<Rightarrow> real list" where
  "raw_scores e query =
     (case (model e, embeddings e) of
        (Some encode, Some embs) \<Rightarrow> cosine_similarities embs (encode query)
      | _ \<Rightarrow> map real_of_int (keyword_scores (catalog e) (split (lower query))))"

text \<open>The vectors on which the arithmetic of the vector strategy is that of the reals:
  one embedding for each row, all of the width of the query's, none of norm zero
  (\<^verbatim>\<open>np.dot\<close> raises on widths that differ, and the quotient is \<^verbatim>\<open>nan\<close> on a zero
  norm). Nothing is asked when the encoder is not loaded.\<close>

definition vectors_regular :: "engine \<Rightarrow> string \<Rightarrow> bool" where
  "vectors_regular e query =
     (case (model e, embeddings e) of
        (Some encode, Some embs) \<Rightarrow>
          length embs = length (catalog e) \<and> vec_norm (encode query) \<noteq> 0 \<and>
          list_all (\<lambda>v. length v = length (encode query) \<and> vec_norm v \<noteq> 0) embs
      | _ \<Rightarrow> True)"

definition non_increasing :: "real list \<Rightarrow> bool" where
  "non_increasing xs = sorted_wrt (\<lambda>a b. b \<le> a) xs"



subsection \<open>Example data\<close>

text \<open>One numpy for the runs below: its \<^verbatim>\<open>argsort\<close> is an insertion sort, which
  leaves positions with equal values in ascending order. A run in which no two scores
  are equal comes out the same with every other \<^verbatim>\<open>argsort\<close>.\<close>

definition insertion_argsort :: "'a::linorder list \<Rightarrow> nat list" where
  "insertion_argsort xs = sort_key (\<lambda>i. xs ! i) [0..<length xs]"

definition insertion_numpy :: numpy where
  "insertion_numpy = \<lparr>argsort_int = insertion_argsort, argsort_float = insertion_argsort\<rparr>"

definition row_a :: row where
  "row_a = \<lparr>assessment_name = ''A'', test_type = ''Coding'', skills = ''python'',
            description = [], duration = 30, remote_testing_support = ''Yes''\<rparr>"

definition row_b :: row where
  "row_b = \<lparr>assessment_name = ''B'', test_type = ''Personality'', skills = ''teamwork'',
            description = [], duration = 60, remote_testing_support = ''No''\<rparr>"

definition row_c :: row where
  "row_c = \<lparr>assessment_name = ''C'', test_type = ''Coding'', skills = ''java'',
            description = [], duration = 45, remote_testing_support = ''Yes''\<rparr>"

text \<open>An encoder of width one: the text \<^verbatim>\<open>no\<close> goes to \<open>-1\<close>, every other text to \<open>1\<close>.\<close>

definition sign_encoder :: "string \<Rightarrow> real list" where
  "sign_encoder s = (if s = ''no'' then [- 1] else [1])"

text \<open>A web without network: every request raises.\<close>

definition offline :: web where
  "offline = \<lparr>http_get = (\<lambda>url. Inl ''connection refused''),
              html_text = (\<lambda>body. Inl ''no document'')\<rparr>"

text \<open>A web that serves one page, whose text is the given one.\<close>

definition serving :: "string \<Rightarrow> web" where
  "serving page = \<lparr>http_get = (\<lambda>url. Inr ''<html>''), html_text = (\<lambda>body. Inr page)\<rparr>"

text \<open>The divisor of \<^verbatim>\<open>_keyword_search\<close>: the largest score, or \<open>1\<close> when no score
  is positive.\<close>

definition max_score_of :: "int list \<Rightarrow> int" where
  "max_score_of scores = (if Max (set scores) > 0 then Max (set scores) else 1)"

text \<open>The length of \<^verbatim>\<open>xs[:k]\<close> for a list of \<open>n\<close> entries.\<close>

definition expected_count :: "int \<Rightarrow> nat \<Rightarrow> int" where
  "expected_count k n = (if 0 \<le> k then min k (int n) else max (int n + k) 0)"


section \<open>Auxiliary facts\<close>

subsection \<open>Slices, sorting, rounding\<close>

lemma slice_to_is_take: "\<exists>n. slice_to k xs = take n xs"
  by (auto simp: slice_to_def)

lemma length_slice_to:
  "int (length (slice_to k xs)) = (if 0 \<le> k then min k (int (length xs)) else max (int (length xs) + k) 0)"
  by (auto simp: slice_to_def)

lemma sorted_wrt_slice_to: "sorted_wrt R xs \<Longrightarrow> sorted_wrt R (slice_to k xs)"
  by (simp add: slice_to_def)

lemma set_slice_to: "set (slice_to k xs) \<subseteq> set xs"
  by (auto simp: slice_to_def dest: in_set_takeD)

lemma slice_to_map: "slice_to k (map f xs) = map f (slice_to k xs)"
  by (simp add: slice_to_def take_map)


lemma slice_to_idem: "slice_to k (slice_to k xs) = (if 0 \<le> k then slice_to k xs else take (length xs - 2 * nat (- k)) xs)"
  by (auto simp: slice_to_def min_def mult_2)

lemma is_argsort_set: "is_argsort xs p \<Longrightarrow> set p = {0..<length xs}"
  by (simp add: is_argsort_def)

lemma is_argsort_length: "is_argsort xs p \<Longrightarrow> length p = length xs"
proof -
  assume "is_argsort xs p"
  then have "distinct p" "set p = {0..<length xs}"
    by (simp_all add: is_argsort_def)
  then show ?thesis
    using distinct_card [of p] by simp
qed

lemma is_argsort_sorted: "is_argsort xs p \<Longrightarrow> sorted (map (\<lambda>i. xs ! i) p)"
  by (simp add: is_argsort_def)

lemma argsort_int_ok: "numpy_ok np \<Longrightarrow> is_argsort xs (argsort_int np xs)"
  by (simp add: numpy_ok_def)

lemma argsort_float_ok: "numpy_ok np \<Longrightarrow> is_argsort xs (argsort_float np xs)"
  by (simp add: numpy_ok_def)

lemma insertion_argsort_ok: "is_argsort xs (insertion_argsort xs)"
  by (simp add: is_argsort_def insertion_argsort_def)

lemma insertion_numpy_ok: "numpy_ok insertion_numpy"
  by (simp add: numpy_ok_def insertion_numpy_def insertion_argsort_ok)

lemma round_half_even_of_int: "round_half_even (of_int n) = n"
  by (simp add: round_half_even_def)

lemma round_half_even_bounds:
  "\<lfloor>y\<rfloor> \<le> round_half_even y" "round_half_even y \<le> \<lfloor>y\<rfloor> + 1"
  by (simp_all add: round_half_even_def Let_def)

lemma round_half_even_mono:
  assumes "x \<le> y"
  shows "round_half_even x \<le> round_half_even y"
proof (cases "\<lfloor>x\<rfloor> = \<lfloor>y\<rfloor>")
  case True
  then have "x - of_int \<lfloor>x\<rfloor> \<le> y - of_int \<lfloor>y\<rfloor>"
    using assms by simp
  then show ?thesis
    using True by (auto simp: round_half_even_def Let_def)
next
  case False
  then have "\<lfloor>x\<rfloor> < \<lfloor>y\<rfloor>"
    using floor_mono [OF assms] by simp
  then have "round_half_even x \<le> \<lfloor>y\<rfloor>"
    using round_half_even_bounds(2) [of x] by simp
  then show ?thesis
    using round_half_even_bounds(1) [of y] by simp
qed

lemma round1_mono: "x \<le> y \<Longrightarrow> round1 x \<le> round1 y"
  by (simp add: round1_def round_half_even_mono divide_right_mono)

lemma round1_zero: "round1 0 = 0"
  by (simp add: round1_def round_half_even_def)

lemma round1_hundred: "round1 100 = 100"
  using round_half_even_of_int [of 1000] by (simp add: round1_def)

lemma round1_minus_hundred: "round1 (- 100) = - 100"
  using round_half_even_of_int [of "- 1000"] by (simp add: round1_def)

lemma py_max_Inr: "xs \<noteq> [] \<Longrightarrow> py_max xs = Inr (Max (set xs))"
  by (cases xs) (simp_all add: Max.set_eq_fold [symmetric])

lemma py_max_Inl: "py_max xs = Inl err \<longleftrightarrow> xs = [] \<and> err = ValueError"
  by (cases xs) auto

subsection \<open>The two searches\<close>

lemma keyword_scores_length: "length (keyword_scores cat ts) = length cat"
  by (simp add: keyword_scores_def)

lemma keyword_scores_nonneg: "x \<in> set (keyword_scores cat ts) \<Longrightarrow> 0 \<le> x"
  by (auto simp: keyword_scores_def)

lemma keyword_search_empty:
  "catalog e = [] \<Longrightarrow> keyword_search np e query top_k = Inl ValueError"
  by (simp add: keyword_search_def keyword_scores_def Let_def)

lemma keyword_search_nonempty:
  assumes "catalog e \<noteq> []"
  shows "keyword_search np e query top_k =
    Inr (map (\<lambda>i. \<lparr>index = i, entry = catalog e ! i,
                   relevance_score =
                     round1 (real_of_int (keyword_scores (catalog e) (split (lower query)) ! i)
                       / real_of_int (max_score_of (keyword_scores (catalog e) (split (lower query))))
                       * 100)\<rparr>)
           (slice_to top_k (rev (argsort_int np (keyword_scores (catalog e) (split (lower query)))))))"
proof -
  have "keyword_scores (catalog e) (split (lower query)) \<noteq> []"
    using assms keyword_scores_length [of "catalog e"] by (metis length_0_conv)
  then show ?thesis
    by (simp add: keyword_search_def Let_def py_max_Inr max_score_of_def)
qed

lemma max_score_of_pos: "0 < max_score_of scores"
  by (simp add: max_score_of_def)

lemma semantic_search_fallback:
  "model e = None \<or> embeddings e = None \<Longrightarrow> semantic_search np e query top_k = keyword_search np e query top_k"
  by (auto simp: semantic_search_def split: option.splits)

lemma semantic_search_vector:
  assumes "numpy_ok np"
    and "model e = Some encode" "embeddings e = Some embs" "length embs = length (catalog e)"
  shows "semantic_search np e query top_k =
    Inr (map (\<lambda>i. \<lparr>index = i, entry = catalog e ! i,
                   relevance_score = round1 (cosine_similarities embs (encode query) ! i * 100)\<rparr>)
           (slice_to top_k (rev (argsort_float np (cosine_similarities embs (encode query))))))"
proof -
  have "set (slice_to top_k (rev (argsort_float np (cosine_similarities embs (encode query)))))
          \<subseteq> {0..<length (catalog e)}"
    using set_slice_to [of top_k "rev (argsort_float np (cosine_similarities embs (encode query)))"]
      assms(4)
    by (simp add: is_argsort_set [OF argsort_float_ok [OF assms(1)]] cosine_similarities_def)
  then have "list_all (\<lambda>i. i < length (catalog e))
               (slice_to top_k (rev (argsort_float np (cosine_similarities embs (encode query)))))"
    by (auto simp: list_all_iff)
  then show ?thesis
    using assms(2,3) by (simp add: semantic_search_def Let_def)
qed

lemma ranked_non_increasing:
  fixes xs :: "'a::linorder list" and g :: "'a \<Rightarrow> real"
  assumes "is_argsort xs p" and "\<And>a b. a \<le> b \<Longrightarrow> g a \<le> g b"
  shows "non_increasing (map (\<lambda>i. g (xs ! i)) (slice_to k (rev p)))"
proof -
  have "sorted_wrt (\<lambda>a b. xs ! a \<le> xs ! b) p"
    using is_argsort_sorted [OF assms(1)] by (simp add: sorted_wrt_map)
  then have "sorted_wrt (\<lambda>a b. xs ! b \<le> xs ! a) (slice_to k (rev p))"
    by (simp add: sorted_wrt_rev sorted_wrt_slice_to)
  then have "sorted_wrt (\<lambda>a b. g (xs ! b) \<le> g (xs ! a)) (slice_to k (rev p))"
    by (rule sorted_wrt_mono_rel [rotated]) (simp add: assms(2))
  then show ?thesis
    by (simp add: non_increasing_def sorted_wrt_map)
qed

lemma keyword_relevance_mono:
  "0 < m \<Longrightarrow> a \<le> b \<Longrightarrow> round1 (real_of_int a / real_of_int m * 100) \<le> round1 (real_of_int b / real_of_int m * 100)"
  by (intro round1_mono mult_right_mono divide_right_mono) simp_all

lemma keyword_search_non_increasing:
  assumes "numpy_ok np" "keyword_search np e query top_k = Inr rs"
  shows "non_increasing (map relevance_score rs)"
proof -
  have ne: "catalog e \<noteq> []"
    using assms(2) keyword_search_empty [where e = e and np = np and query = query and top_k = top_k] by auto
  let ?s = "keyword_scores (catalog e) (split (lower query))"
  have "non_increasing (map (\<lambda>i. (\<lambda>a. round1 (real_of_int a / real_of_int (max_score_of ?s) * 100)) (?s ! i))
           (slice_to top_k (rev (argsort_int np ?s))))"
    by (rule ranked_non_increasing [OF argsort_int_ok [OF assms(1)]])
      (rule keyword_relevance_mono [OF max_score_of_pos])
  then show ?thesis
    using assms(2) keyword_search_nonempty [OF ne, where np = np and query = query and top_k = top_k] by (auto simp: comp_def)
qed

lemma vector_search_non_increasing:
  assumes "numpy_ok np"
    and "model e = Some encode" "embeddings e = Some embs" "semantic_search np e query top_k = Inr rs"
  shows "non_increasing (map relevance_score rs)"
proof -
  let ?s = "cosine_similarities embs (encode query)"
  have "non_increasing (map (\<lambda>i. (\<lambda>a. round1 (a * 100)) (?s ! i))
           (slice_to top_k (rev (argsort_float np ?s))))"
    by (rule ranked_non_increasing [OF argsort_float_ok [OF assms(1)]]) (simp add: round1_mono)
  then show ?thesis
    using assms(2-4) by (auto simp: semantic_search_def Let_def comp_def split: if_splits)
qed

subsection \<open>Runs on the example data\<close>

lemma vector_example_regular:
  "vectors_regular (init_engine [row_a, row_b] (Some sign_encoder) None) ''no''"
  by (simp add: vectors_regular_def init_engine_def sign_encoder_def vec_norm_def
      get_combined_text_def row_a_def row_b_def)

lemma vector_example_search:
  "semantic_search insertion_numpy (init_engine [row_a, row_b] (Some sign_encoder) None) ''no'' 2
     = Inr [\<lparr>index = 1, entry = row_b, relevance_score = - 100\<rparr>,
            \<lparr>index = 0, entry = row_a, relevance_score = - 100\<rparr>]"
  by (simp add: semantic_search_def init_engine_def get_combined_text_def row_a_def row_b_def
      sign_encoder_def cosine_similarities_def dot_def vec_norm_def insertion_numpy_def
      insertion_argsort_def slice_to_def
      round1_def round_half_even_def Let_def)


lemma fallback_search:
  "semantic_search np (init_engine cat None gem) query top_k
     = keyword_search np (init_engine cat None gem) query top_k"
  by (rule semantic_search_fallback) (simp add: init_engine_def)

lemma fallback_regular: "vectors_regular (init_engine cat None gem) query"
  by (simp add: vectors_regular_def init_engine_def)

lemma fallback_not_loaded:
  "model (init_engine cat None gem) = None \<or> embeddings (init_engine cat None gem) = None"
  by (simp add: init_engine_def)

lemma keyword_example_search:
  "keyword_search insertion_numpy (init_engine [row_a, row_b, row_c] None None) ''python coding'' 2
     = Inr [\<lparr>index = 0, entry = row_a, relevance_score = 100\<rparr>,
            \<lparr>index = 2, entry = row_c, relevance_score = 50\<rparr>]"
  by code_simp

lemma vector_example_loaded:
  "model (init_engine [row_a, row_b] (Some sign_encoder) None) \<noteq> None"
  "embeddings (init_engine [row_a, row_b] (Some sign_encoder) None) \<noteq> None"
  by (simp_all add: init_engine_def)

section \<open>The claims\<close>

text \<open>
  \<^bold>\<open>C1\<close>. The relevance scores of a result list are non-increasing along the list,
  for every engine, query and requested count and whatever order \<^verbatim>\<open>np.argsort\<close>
  gives to equal scores, in the vector strategy (on regular vectors) and in the keyword
  strategy, be it reached through \<^const>\<open>semantic_search\<close> or called directly; and on a
  catalog with at least one row the search does return a result list.
\<close>

theorem scores_non_increasing:
  assumes "numpy_ok np" "vectors_regular e query"
  shows "(catalog e \<noteq> [] \<longrightarrow> (\<exists>rs. semantic_search np e query top_k = Inr rs)) \<and>
         (\<forall>rs. semantic_search np e query top_k = Inr rs \<or> keyword_search np e query top_k = Inr rs
            \<longrightarrow> non_increasing (map relevance_score rs))"
proof (intro conjI impI allI)
  assume ne: "catalog e \<noteq> []"
  show "\<exists>rs. semantic_search np e query top_k = Inr rs"
  proof (cases "model e = None \<or> embeddings e = None")
    case True
    then show ?thesis
      using keyword_search_nonempty [OF ne, where np = np and query = query and top_k = top_k]
      by (simp add: semantic_search_fallback)
  next
    case False
    then obtain encode embs where m: "model e = Some encode" "embeddings e = Some embs"
      by auto
    with assms(2) have "length embs = length (catalog e)"
      by (simp add: vectors_regular_def)
    from semantic_search_vector [OF assms(1) m this] show ?thesis
      by blast
  qed
next
  fix rs
  assume r: "semantic_search np e query top_k = Inr rs \<or> keyword_search np e query top_k = Inr rs"
  show "non_increasing (map relevance_score rs)"
  proof (cases "semantic_search np e query top_k = Inr rs")
    case False
    with r have "keyword_search np e query top_k = Inr rs"
      by simp
    then show ?thesis
      by (rule keyword_search_non_increasing [OF assms(1)])
  next
    case True
    show ?thesis
    proof (cases "model e = None \<or> embeddings e = None")
      case True
      with \<open>semantic_search np e query top_k = Inr rs\<close>
      have "keyword_search np e query top_k = Inr rs"
        by (simp add: semantic_search_fallback)
      then show ?thesis
        by (rule keyword_search_non_increasing [OF assms(1)])
    next
      case False
      then obtain encode embs where "model e = Some encode" "embeddings e = Some embs"
        by auto
      then show ?thesis
        using True by (rule vector_search_non_increasing [OF assms(1)])
    qed
  qed
qed

theorem scores_non_increasing_witness:
  "numpy_ok insertion_numpy \<and>
   vectors_regular (init_engine [row_a, row_b] (Some sign_encoder) None) ''no'' \<and>
   catalog (init_engine [row_a, row_b] (Some sign_encoder) None) \<noteq> [] \<and>
   semantic_search insertion_numpy (init_engine [row_a, row_b] (Some sign_encoder) None) ''no'' 2
     = Inr [\<lparr>index = 1, entry = row_b, relevance_score = - 100\<rparr>,
            \<lparr>index = 0, entry = row_a, relevance_score = - 100\<rparr>] \<and>
   non_increasing (map relevance_score [\<lparr>index = 1, entry = row_b, relevance_score = - 100\<rparr>,
            \<lparr>index = 0, entry = row_a, relevance_score = - 100\<rparr>])"
proof -
  have "non_increasing (map relevance_score [\<lparr>index = 1, entry = row_b, relevance_score = - 100\<rparr>,
            \<lparr>index = 0, entry = row_a, relevance_score = - 100\<rparr>])"
    using scores_non_increasing [OF insertion_numpy_ok vector_example_regular, of 2]
      vector_example_search
    by blast
  moreover have "catalog (init_engine [row_a, row_b] (Some sign_encoder) None) \<noteq> []"
    by (simp add: init_engine_def)
  ultimately show ?thesis
    using insertion_numpy_ok vector_example_regular vector_example_search by blast
qed

subsection \<open>The cosine similarity lies between \<open>-1\<close> and \<open>1\<close>\<close>

lemma sum_squares_nonneg: "0 \<le> sum_list (map (\<lambda>x::real. x * x) xs)"
  by (induction xs) simp_all

lemma dot_squared_le:
  assumes "length xs = length ys"
  shows "(dot xs ys)\<^sup>2 \<le> sum_list (map (\<lambda>x. x * x) xs) * sum_list (map (\<lambda>y. y * y) ys)"
  using assms
proof (induction xs ys rule: list_induct2)
  case Nil
  then show ?case by (simp add: dot_def)
next
  case (Cons x xs y ys)
  define a where "a = sum_list (map (\<lambda>x. x * x) xs)"
  define c where "c = sum_list (map (\<lambda>y. y * y) ys)"
  define b where "b = dot xs ys"
  define p where "p = x * x * c"
  define q where "q = a * (y * y)"
  define m where "m = x * y * b"
  have a: "0 \<le> a" and c: "0 \<le> c"
    unfolding a_def c_def by (rule sum_squares_nonneg)+
  have ih: "b * b \<le> a * c"
    using Cons.IH by (simp add: a_def b_def c_def power2_eq_square)
  have pq: "0 \<le> p + q"
    unfolding p_def q_def using a c by simp
  have "m * m = (x * x * (y * y)) * (b * b)"
    unfolding m_def by (simp only: ac_simps)
  also have "\<dots> \<le> (x * x * (y * y)) * (a * c)"
    using ih by (rule mult_left_mono) simp
  also have "\<dots> = p * q"
    unfolding p_def q_def by (simp only: ac_simps)
  finally have mm: "m * m \<le> p * q" .
  have "0 \<le> (p - q) * (p - q)"
    by simp
  then have "4 * (p * q) \<le> (p + q) * (p + q)"
    by (simp add: algebra_simps)
  with mm have "(2 * m)\<^sup>2 \<le> (p + q)\<^sup>2"
    by (simp add: power2_eq_square)
  then have "2 * m \<le> p + q"
    using pq by (rule power2_le_imp_le)
  moreover have "(x * y + b) * (x * y + b) = x * x * (y * y) + 2 * m + b * b"
    unfolding m_def by (simp add: algebra_simps)
  moreover have "(x * x + a) * (y * y + c) = x * x * (y * y) + (p + q) + a * c"
    unfolding p_def q_def by (simp add: algebra_simps)
  ultimately have "(x * y + b) * (x * y + b) \<le> (x * x + a) * (y * y + c)"
    using ih by linarith
  then show ?case
    by (simp add: dot_def a_def b_def c_def power2_eq_square)
qed

lemma abs_dot_le_norms:
  assumes "length xs = length ys"
  shows "\<bar>dot xs ys\<bar> \<le> vec_norm xs * vec_norm ys"
proof -
  have "sqrt ((dot xs ys)\<^sup>2) \<le> sqrt (sum_list (map (\<lambda>x. x * x) xs) * sum_list (map (\<lambda>y. y * y) ys))"
    using dot_squared_le [OF assms] by (rule real_sqrt_le_mono)
  then show ?thesis
    by (simp add: vec_norm_def real_sqrt_mult)
qed

lemma vec_norm_nonneg: "0 \<le> vec_norm xs"
  by (simp add: vec_norm_def sum_squares_nonneg)

lemma cosine_bounds:
  assumes "length v = length q" "vec_norm v \<noteq> 0" "vec_norm q \<noteq> 0"
  shows "\<bar>dot v q / (vec_norm v * vec_norm q)\<bar> \<le> 1"
proof -
  have pos: "0 < vec_norm v * vec_norm q"
    using assms(2,3) vec_norm_nonneg [of v] vec_norm_nonneg [of q] by (simp add: less_le)
  have "\<bar>dot v q / (vec_norm v * vec_norm q)\<bar> = \<bar>dot v q\<bar> / (vec_norm v * vec_norm q)"
    using pos by (simp only: abs_divide abs_of_pos)
  also have "\<dots> \<le> 1"
    using abs_dot_le_norms [OF assms(1)] pos by (simp only: divide_le_eq_1_pos)
  finally show ?thesis .
qed

lemma round1_range: "lo \<le> x \<Longrightarrow> x \<le> hi \<Longrightarrow> round1 lo \<le> round1 x \<and> round1 x \<le> round1 hi"
  by (simp add: round1_mono)

lemma vector_score_range:
  assumes "\<bar>s\<bar> \<le> 1"
  shows "- 100 \<le> round1 (s * 100) \<and> round1 (s * 100) \<le> 100"
proof -
  have "- 100 \<le> s * 100" "s * 100 \<le> 100"
    using assms by (simp_all add: abs_le_iff)
  then show ?thesis
    using round1_mono [of "- 100" "s * 100"] round1_mono [of "s * 100" 100]
    by (simp add: round1_hundred round1_minus_hundred)
qed

lemma keyword_score_range:
  assumes "i < length scores" "\<forall>x\<in>set scores. 0 \<le> x"
  shows "0 \<le> round1 (real_of_int (scores ! i) / real_of_int (max_score_of scores) * 100) \<and>
         round1 (real_of_int (scores ! i) / real_of_int (max_score_of scores) * 100) \<le> 100"
proof -
  have mem: "scores ! i \<in> set scores"
    using assms(1) by simp
  then have le: "scores ! i \<le> Max (set scores)"
    by simp
  have nonneg: "0 \<le> scores ! i"
    using assms(2) mem by blast
  have "scores ! i \<le> max_score_of scores"
    using le by (simp add: max_score_of_def)
  then have "real_of_int (scores ! i) / real_of_int (max_score_of scores) \<le> 1"
    using max_score_of_pos [of scores] by simp
  moreover have "0 \<le> real_of_int (scores ! i) / real_of_int (max_score_of scores)"
    using nonneg max_score_of_pos [of scores] by simp
  ultimately have "0 \<le> real_of_int (scores ! i) / real_of_int (max_score_of scores) * 100"
    "real_of_int (scores ! i) / real_of_int (max_score_of scores) * 100 \<le> 100"
    using mult_right_mono [of "real_of_int (scores ! i) / real_of_int (max_score_of scores)" 1 100]
    by (simp_all del: times_divide_eq_left)
  then show ?thesis
    using round1_mono [of 0 "real_of_int (scores ! i) / real_of_int (max_score_of scores) * 100"]
      round1_mono [of "real_of_int (scores ! i) / real_of_int (max_score_of scores) * 100" 100]
    by (simp add: round1_zero round1_hundred)
qed


lemma regular_cosine_bound:
  assumes "vectors_regular e query" "model e = Some encode" "embeddings e = Some embs"
    "i < length embs"
  shows "\<bar>cosine_similarities embs (encode query) ! i\<bar> \<le> 1"
proof -
  have all: "list_all (\<lambda>v. length v = length (encode query) \<and> vec_norm v \<noteq> 0) embs"
    and q: "vec_norm (encode query) \<noteq> 0"
    using assms(1-3) by (simp_all add: vectors_regular_def)
  from all assms(4) have v: "length (embs ! i) = length (encode query)" "vec_norm (embs ! i) \<noteq> 0"
    by (simp_all add: list_all_length)
  have "cosine_similarities embs (encode query) ! i
      = dot (embs ! i) (encode query) / (vec_norm (embs ! i) * vec_norm (encode query))"
    using assms(4) by (simp add: cosine_similarities_def)
  with cosine_bounds [OF v q] show ?thesis
    by (simp only:)
qed
lemma keyword_search_range:
  assumes ok: "numpy_ok np" and "keyword_search np e query top_k = Inr rs" "r \<in> set rs"
  shows "0 \<le> relevance_score r \<and> relevance_score r \<le> 100"
proof -
  define s where "s = keyword_scores (catalog e) (split (lower query))"
  define f where "f = (\<lambda>i. \<lparr>index = i, entry = catalog e ! i,
    relevance_score = round1 (real_of_int (s ! i) / real_of_int (max_score_of s) * 100)\<rparr>)"
  have ne: "catalog e \<noteq> []"
    using assms(2) keyword_search_empty [where e = e and np = np and query = query and top_k = top_k]
    by auto
  note k = keyword_search_nonempty [OF ne, where np = np and query = query and top_k = top_k]
  have rs: "rs = map f (slice_to top_k (rev (argsort_int np s)))"
    unfolding f_def s_def using assms(2) unfolding k
    by (rule sum.inject(2) [THEN iffD1, symmetric])
  from assms(3) have "r \<in> f ` set (slice_to top_k (rev (argsort_int np s)))"
    unfolding rs by (simp only: set_map)
  then obtain i where r: "r = f i" and i: "i \<in> set (slice_to top_k (rev (argsort_int np s)))"
    by (rule imageE)
  have "i \<in> set (rev (argsort_int np s))"
    by (rule subsetD [OF set_slice_to i])
  then have "i < length s"
    by (simp add: is_argsort_set [OF argsort_int_ok [OF ok]])
  moreover have "\<forall>x\<in>set s. 0 \<le> x"
    unfolding s_def using keyword_scores_nonneg by blast
  ultimately have "0 \<le> round1 (real_of_int (s ! i) / real_of_int (max_score_of s) * 100) \<and>
      round1 (real_of_int (s ! i) / real_of_int (max_score_of s) * 100) \<le> 100"
    by (rule keyword_score_range)
  moreover have "relevance_score r = round1 (real_of_int (s ! i) / real_of_int (max_score_of s) * 100)"
    unfolding r f_def by (rule result.select_convs)
  ultimately show ?thesis
    by (simp only:)
qed

lemma vector_search_range:
  assumes ok: "numpy_ok np"
    and "vectors_regular e query" "model e = Some encode" "embeddings e = Some embs"
    "semantic_search np e query top_k = Inr rs" "r \<in> set rs"
  shows "- 100 \<le> relevance_score r \<and> relevance_score r \<le> 100"
proof -
  define s where "s = cosine_similarities embs (encode query)"
  define f where "f = (\<lambda>i. \<lparr>index = i, entry = catalog e ! i,
    relevance_score = round1 (s ! i * 100)\<rparr>)"
  have len: "length embs = length (catalog e)"
    using assms(2-4) by (simp add: vectors_regular_def)
  note k = semantic_search_vector [OF ok assms(3,4) len, of query top_k]
  have rs: "rs = map f (slice_to top_k (rev (argsort_float np s)))"
    unfolding f_def s_def using assms(5) unfolding k
    by (rule sum.inject(2) [THEN iffD1, symmetric])
  from assms(6) have "r \<in> f ` set (slice_to top_k (rev (argsort_float np s)))"
    unfolding rs by (simp only: set_map)
  then obtain i where r: "r = f i" and i: "i \<in> set (slice_to top_k (rev (argsort_float np s)))"
    by (rule imageE)
  have "i \<in> set (rev (argsort_float np s))"
    by (rule subsetD [OF set_slice_to i])
  then have "i < length embs"
    by (simp add: is_argsort_set [OF argsort_float_ok [OF ok]] s_def cosine_similarities_def)
  then have "\<bar>s ! i\<bar> \<le> 1"
    unfolding s_def by (rule regular_cosine_bound [OF assms(2-4)])
  then have "- 100 \<le> round1 (s ! i * 100) \<and> round1 (s ! i * 100) \<le> 100"
    by (rule vector_score_range)
  moreover have "relevance_score r = round1 (s ! i * 100)"
    unfolding r f_def by (rule result.select_convs)
  ultimately show ?thesis
    by (simp only:)
qed

lemma semantic_search_range:
  assumes ok: "numpy_ok np"
    and "vectors_regular e query" "semantic_search np e query top_k = Inr rs" "r \<in> set rs"
  shows "- 100 \<le> relevance_score r \<and> relevance_score r \<le> 100"
proof (cases "model e = None \<or> embeddings e = None")
  case True
  with assms(3) have "keyword_search np e query top_k = Inr rs"
    by (simp add: semantic_search_fallback)
  from keyword_search_range [OF ok this assms(4)] show ?thesis
    by simp
next
  case False
  then obtain encode embs where m: "model e = Some encode" "embeddings e = Some embs"
    by auto
  show ?thesis
    by (rule vector_search_range [OF ok assms(2) m assms(3,4)])
qed

text \<open>
  \<^bold>\<open>C2\<close>, as amended. Every relevance score of the ranking operation lies in
  \<open>[-100, 100]\<close> (in the vector strategy on regular vectors), and every relevance score
  of the keyword strategy, called directly or reached as the fallback, lies in
  \<open>[0, 100]\<close>.
\<close>

theorem relevance_score_range:
  assumes "numpy_ok np" "vectors_regular e query"
  shows "(\<forall>rs r. keyword_search np e query top_k = Inr rs \<and> r \<in> set rs
            \<longrightarrow> 0 \<le> relevance_score r \<and> relevance_score r \<le> 100) \<and>
         (\<forall>rs r. semantic_search np e query top_k = Inr rs \<and> r \<in> set rs
            \<longrightarrow> - 100 \<le> relevance_score r \<and> relevance_score r \<le> 100) \<and>
         (\<forall>rs r. semantic_search np e query top_k = Inr rs \<and> r \<in> set rs \<and>
                 (model e = None \<or> embeddings e = None)
            \<longrightarrow> 0 \<le> relevance_score r \<and> relevance_score r \<le> 100)"
proof -
  have a: "\<forall>rs r. keyword_search np e query top_k = Inr rs \<and> r \<in> set rs
          \<longrightarrow> 0 \<le> relevance_score r \<and> relevance_score r \<le> 100"
  proof (intro allI impI)
    fix rs r
    assume h: "keyword_search np e query top_k = Inr rs \<and> r \<in> set rs"
    show "0 \<le> relevance_score r \<and> relevance_score r \<le> 100"
      by (rule keyword_search_range [OF assms(1) conjunct1 [OF h] conjunct2 [OF h]])
  qed
  have b: "\<forall>rs r. semantic_search np e query top_k = Inr rs \<and> r \<in> set rs
          \<longrightarrow> - 100 \<le> relevance_score r \<and> relevance_score r \<le> 100"
  proof (intro allI impI)
    fix rs r
    assume h: "semantic_search np e query top_k = Inr rs \<and> r \<in> set rs"
    show "- 100 \<le> relevance_score r \<and> relevance_score r \<le> 100"
      by (rule semantic_search_range [OF assms conjunct1 [OF h] conjunct2 [OF h]])
  qed
  have c: "\<forall>rs r. semantic_search np e query top_k = Inr rs \<and> r \<in> set rs \<and>
                 (model e = None \<or> embeddings e = None)
          \<longrightarrow> 0 \<le> relevance_score r \<and> relevance_score r \<le> 100"
  proof (intro allI impI)
    fix rs r
    assume h: "semantic_search np e query top_k = Inr rs \<and> r \<in> set rs \<and>
                 (model e = None \<or> embeddings e = None)"
    note h1 = conjunct1 [OF h]
      and h2 = conjunct1 [OF conjunct2 [OF h]]
      and h3 = conjunct2 [OF conjunct2 [OF h]]
    have "keyword_search np e query top_k = Inr rs"
      using h1 unfolding semantic_search_fallback [OF h3] .
    then show "0 \<le> relevance_score r \<and> relevance_score r \<le> 100"
      using h2 by (rule keyword_search_range [OF assms(1)])
  qed
  show ?thesis
    by (rule conjI [OF a conjI [OF b c]])
qed

theorem relevance_score_range_witness:
  "numpy_ok insertion_numpy \<and>
   vectors_regular (init_engine [row_a, row_b] (Some sign_encoder) None) ''no'' \<and>
   semantic_search insertion_numpy (init_engine [row_a, row_b] (Some sign_encoder) None) ''no'' 2
     = Inr [\<lparr>index = 1, entry = row_b, relevance_score = - 100\<rparr>,
            \<lparr>index = 0, entry = row_a, relevance_score = - 100\<rparr>] \<and>
   - 100 \<le> relevance_score \<lparr>index = 1, entry = row_b, relevance_score = - 100\<rparr> \<and>
   relevance_score \<lparr>index = 1, entry = row_b, relevance_score = - 100\<rparr> \<le> 100 \<and>
   vectors_regular (init_engine [row_a, row_b, row_c] None None) ''python coding'' \<and>
   (model (init_engine [row_a, row_b, row_c] None None) = None \<or>
    embeddings (init_engine [row_a, row_b, row_c] None None) = None) \<and>
   semantic_search insertion_numpy (init_engine [row_a, row_b, row_c] None None) ''python coding'' 2
     = Inr [\<lparr>index = 0, entry = row_a, relevance_score = 100\<rparr>,
            \<lparr>index = 2, entry = row_c, relevance_score = 50\<rparr>] \<and>
   0 \<le> relevance_score \<lparr>index = 2, entry = row_c, relevance_score = 50\<rparr> \<and>
   relevance_score \<lparr>index = 2, entry = row_c, relevance_score = 50\<rparr> \<le> 100"
proof -
  note vector = relevance_score_range [OF insertion_numpy_ok vector_example_regular, of 2,
      THEN conjunct2, THEN conjunct1, THEN spec, THEN spec, THEN mp]
  have v: "semantic_search insertion_numpy (init_engine [row_a, row_b] (Some sign_encoder) None) ''no'' 2
      = Inr [\<lparr>index = 1, entry = row_b, relevance_score = - 100\<rparr>,
             \<lparr>index = 0, entry = row_a, relevance_score = - 100\<rparr>] \<and>
    \<lparr>index = 1, entry = row_b, relevance_score = - 100\<rparr>
      \<in> set [\<lparr>index = 1, entry = row_b, relevance_score = - 100\<rparr>,
             \<lparr>index = 0, entry = row_a, relevance_score = - 100\<rparr>]"
    by (intro conjI vector_example_search list.set_intros(1))
  note keyword = relevance_score_range [OF insertion_numpy_ok fallback_regular, of _ _ _ 2,
      THEN conjunct2, THEN conjunct2, THEN spec, THEN spec, THEN mp]
  have s: "semantic_search insertion_numpy (init_engine [row_a, row_b, row_c] None None)
        ''python coding'' 2
      = Inr [\<lparr>index = 0, entry = row_a, relevance_score = 100\<rparr>,
             \<lparr>index = 2, entry = row_c, relevance_score = 50\<rparr>]"
    unfolding fallback_search by (rule keyword_example_search)
  have k: "semantic_search insertion_numpy (init_engine [row_a, row_b, row_c] None None)
        ''python coding'' 2
      = Inr [\<lparr>index = 0, entry = row_a, relevance_score = 100\<rparr>,
             \<lparr>index = 2, entry = row_c, relevance_score = 50\<rparr>] \<and>
    \<lparr>index = 2, entry = row_c, relevance_score = 50\<rparr>
      \<in> set [\<lparr>index = 0, entry = row_a, relevance_score = 100\<rparr>,
             \<lparr>index = 2, entry = row_c, relevance_score = 50\<rparr>] \<and>
    (model (init_engine [row_a, row_b, row_c] None None) = None \<or>
     embeddings (init_engine [row_a, row_b, row_c] None None) = None)"
    by (intro conjI s list.set_intros(1) list.set_intros(2) fallback_not_loaded)
  show ?thesis
    by (rule conjI [OF insertion_numpy_ok conjI [OF vector_example_regular
          conjI [OF vector_example_search conjI [OF conjunct1 [OF vector [OF v]]
          conjI [OF conjunct2 [OF vector [OF v]] conjI [OF fallback_regular
          conjI [OF fallback_not_loaded conjI [OF s keyword [OF k]]]]]]]]])
qed

text \<open>
  \<^bold>\<open>C2\<close>, as stated, fails: with an embedding opposite to the query's the vector
  strategy returns the score \<open>-100\<close>, which is below \<open>0\<close>.
\<close>

theorem relevance_score_negative:
  "semantic_search insertion_numpy (init_engine [row_a, row_b] (Some sign_encoder) None) ''no'' 2
     = Inr [\<lparr>index = 1, entry = row_b, relevance_score = - 100\<rparr>,
            \<lparr>index = 0, entry = row_a, relevance_score = - 100\<rparr>] \<and>
   relevance_score \<lparr>index = 1, entry = row_b, relevance_score = - 100\<rparr> < 0"
  by (rule conjI [OF vector_example_search]) simp

subsection \<open>The number of results\<close>

lemma length_ranked:
  assumes "is_argsort xs p"
  shows "int (length (map f (slice_to k (rev p)))) = expected_count k (length xs)"
  unfolding expected_count_def length_map length_slice_to
  by (simp only: length_rev is_argsort_length [OF assms])

lemma keyword_search_count:
  assumes "numpy_ok np" "catalog e \<noteq> []"
  shows "\<exists>rs. keyword_search np e query top_k = Inr rs \<and>
    int (length rs) = expected_count top_k (length (catalog e))"
proof -
  note k = keyword_search_nonempty [OF assms(2), where np = np and query = query and top_k = top_k]
  have "int (length (projr (keyword_search np e query top_k)))
      = expected_count top_k (length (keyword_scores (catalog e) (split (lower query))))"
    unfolding k sum.sel by (rule length_ranked [OF argsort_int_ok [OF assms(1)]])
  then have "int (length (projr (keyword_search np e query top_k)))
      = expected_count top_k (length (catalog e))"
    by (simp only: keyword_scores_length)
  moreover have "keyword_search np e query top_k = Inr (projr (keyword_search np e query top_k))"
    unfolding k sum.sel by (rule refl)
  ultimately show ?thesis
    by (rule_tac x = "projr (keyword_search np e query top_k)" in exI) (rule conjI)
qed

lemma vector_search_count:
  assumes "numpy_ok np"
    and "model e = Some encode" "embeddings e = Some embs" "length embs = length (catalog e)"
  shows "\<exists>rs. semantic_search np e query top_k = Inr rs \<and>
    int (length rs) = expected_count top_k (length (catalog e))"
proof -
  note k = semantic_search_vector [OF assms, of query top_k]
  have "int (length (projr (semantic_search np e query top_k)))
      = expected_count top_k (length (cosine_similarities embs (encode query)))"
    unfolding k sum.sel by (rule length_ranked [OF argsort_float_ok [OF assms(1)]])
  then have "int (length (projr (semantic_search np e query top_k)))
      = expected_count top_k (length (catalog e))"
    by (simp only: cosine_similarities_def length_map assms(4))
  moreover have "semantic_search np e query top_k = Inr (projr (semantic_search np e query top_k))"
    unfolding k sum.sel by (rule refl)
  ultimately show ?thesis
    by (rule_tac x = "projr (semantic_search np e query top_k)" in exI) (rule conjI)
qed

lemma keyword_example_negative:
  "semantic_search insertion_numpy (init_engine [row_a, row_b, row_c] None None) ''python coding'' (- 1)
     = Inr [\<lparr>index = 0, entry = row_a, relevance_score = 100\<rparr>,
            \<lparr>index = 2, entry = row_c, relevance_score = 50\<rparr>]"
  unfolding fallback_search by code_simp

text \<open>
  \<^bold>\<open>C3\<close>, as amended. On a catalog of \<open>N \<ge> 1\<close> rows (and regular vectors) the ranking
  operation returns a result list, of \<open>min(k, N)\<close> rows for a requested count \<open>k \<ge> 0\<close>
  and of \<open>max(N + k, 0)\<close> rows for a negative \<open>k\<close>, since \<^verbatim>\<open>[:k]\<close> then drops the last
  \<open>-k\<close> rows.
\<close>

theorem result_count:
  assumes "numpy_ok np" "vectors_regular e query" "catalog e \<noteq> []"
  shows "\<exists>rs. semantic_search np e query top_k = Inr rs \<and>
    int (length rs) = (if 0 \<le> top_k then min top_k (int (length (catalog e)))
                       else max (int (length (catalog e)) + top_k) 0)"
proof (cases "model e = None \<or> embeddings e = None")
  case True
  then have "semantic_search np e query top_k = keyword_search np e query top_k"
    by (rule semantic_search_fallback)
  with keyword_search_count [OF assms(1,3), of query top_k] show ?thesis
    by (simp only: expected_count_def)
next
  case False
  then obtain encode embs where m: "model e = Some encode" "embeddings e = Some embs"
    by auto
  with assms(2) have "length embs = length (catalog e)"
    by (simp add: vectors_regular_def)
  from vector_search_count [OF assms(1) m this, of query top_k] show ?thesis
    by (simp only: expected_count_def)
qed

theorem result_count_witness:
  "numpy_ok insertion_numpy \<and>
   vectors_regular (init_engine [row_a, row_b, row_c] None None) ''python coding'' \<and>
   catalog (init_engine [row_a, row_b, row_c] None None) \<noteq> [] \<and>
   (\<exists>rs. semantic_search insertion_numpy (init_engine [row_a, row_b, row_c] None None)
            ''python coding'' 2 = Inr rs \<and> int (length rs) = 2)"
proof -
  have ne: "catalog (init_engine [row_a, row_b, row_c] None None) \<noteq> []"
    by (simp add: init_engine_def)
  have n: "length (catalog (init_engine [row_a, row_b, row_c] None None)) = 3"
    by (simp add: init_engine_def)
  have "\<exists>rs. semantic_search insertion_numpy (init_engine [row_a, row_b, row_c] None None)
            ''python coding'' 2 = Inr rs \<and> int (length rs) = 2"
    using result_count [OF insertion_numpy_ok fallback_regular ne, of "''python coding''" 2]
    unfolding n by simp
  with insertion_numpy_ok fallback_regular ne show ?thesis
    by (intro conjI)
qed

text \<open>
  \<^bold>\<open>C3\<close>, as stated, fails: for the requested count \<open>-1\<close> on three rows the search
  returns two rows, and \<open>min(-1, 3)\<close> is \<open>-1\<close>. The three scores are \<open>2\<close>, \<open>0\<close> and
  \<open>1\<close>, so that one order only sorts them.
\<close>

theorem result_count_negative_k:
  "semantic_search insertion_numpy (init_engine [row_a, row_b, row_c] None None) ''python coding'' (- 1)
     = Inr [\<lparr>index = 0, entry = row_a, relevance_score = 100\<rparr>,
            \<lparr>index = 2, entry = row_c, relevance_score = 50\<rparr>] \<and>
   int (length [\<lparr>index = 0, entry = row_a, relevance_score = 100\<rparr>,
                \<lparr>index = 2, entry = row_c, relevance_score = 50\<rparr>]) = 2 \<and>
   min (- 1) (int (length [row_a, row_b, row_c])) = - 1"
  by (rule conjI [OF keyword_example_negative]) simp

subsection \<open>The order of the results\<close>

lemma distinct_slice_to: "distinct xs \<Longrightarrow> distinct (slice_to k xs)"
  by (simp add: slice_to_def)

lemma ranked_results_order:
  fixes xs :: "'a::linorder list" and g h :: "'a \<Rightarrow> real"
  assumes p: "is_argsort xs p"
    and rs: "rs = map (\<lambda>i. \<lparr>index = i, entry = cat ! i, relevance_score = g (xs ! i)\<rparr>)
                      (slice_to k (rev p))"
    and g: "\<forall>a b. a \<le> b \<longrightarrow> g a \<le> g b"
    and h: "\<forall>a b. a \<le> b \<longrightarrow> h a \<le> h b"
    and ij: "i < j" "j < length rs"
  shows "h (xs ! index (rs ! j)) \<le> h (xs ! index (rs ! i)) \<and>
         relevance_score (rs ! j) \<le> relevance_score (rs ! i) \<and>
         index (rs ! i) \<noteq> index (rs ! j) \<and>
         index (rs ! i) < length xs \<and> index (rs ! j) < length xs"
proof -
  define idx where "idx = slice_to k (rev p)"
  define f where "f = (\<lambda>i. \<lparr>index = i, entry = cat ! i, relevance_score = g (xs ! i)\<rparr>)"
  have rs': "rs = map f idx"
    unfolding f_def idx_def by (rule rs)
  have len: "length rs = length idx"
    unfolding rs' by (rule length_map)
  have j: "j < length idx" and i: "i < length idx"
    using ij len by simp_all
  have fi: "rs ! i = f (idx ! i)" and fj: "rs ! j = f (idx ! j)"
    unfolding rs' using i j by (simp_all only: nth_map)
  have sel: "index (f a) = a" "relevance_score (f a) = g (xs ! a)" for a
    unfolding f_def by (rule result.select_convs)+
  have "sorted_wrt (\<lambda>a b. xs ! a \<le> xs ! b) p"
    using is_argsort_sorted [OF p] by (simp add: sorted_wrt_map)
  then have "sorted_wrt (\<lambda>a b. xs ! b \<le> xs ! a) idx"
    unfolding idx_def by (simp add: sorted_wrt_rev sorted_wrt_slice_to)
  from sorted_wrt_nth_less [OF this ij(1) j] have le: "xs ! (idx ! j) \<le> xs ! (idx ! i)" .
  have "distinct p"
    using p by (simp add: is_argsort_def)
  then have "distinct idx"
    unfolding idx_def by (simp add: distinct_slice_to)
  then have ne: "idx ! i \<noteq> idx ! j"
    using i j ij(1) by (simp add: nth_eq_iff_index_eq)
  have "set idx \<subseteq> set (rev p)"
    unfolding idx_def by (rule set_slice_to)
  then have sub: "set idx \<subseteq> {0..<length xs}"
    by (simp add: is_argsort_set [OF p])
  have bi: "idx ! i < length xs"
    using sub nth_mem [OF i] by auto
  have bj: "idx ! j < length xs"
    using sub nth_mem [OF j] by auto
  have "h (xs ! (idx ! j)) \<le> h (xs ! (idx ! i))"
    using le by (rule h [rule_format])
  moreover have "g (xs ! (idx ! j)) \<le> g (xs ! (idx ! i))"
    using le by (rule g [rule_format])
  ultimately show ?thesis
    unfolding fi fj sel using ne bi bj by (intro conjI)
qed

lemma keyword_example_tie:
  "semantic_search insertion_numpy (init_engine [row_a, row_b] None None) ''zzz'' 2
     = Inr [\<lparr>index = 1, entry = row_b, relevance_score = 0\<rparr>,
            \<lparr>index = 0, entry = row_a, relevance_score = 0\<rparr>]"
  unfolding fallback_search by code_simp

lemma keyword_example_tie_raw:
  "raw_scores (init_engine [row_a, row_b] None None) ''zzz'' = [0, 0]"
proof -
  have "keyword_scores [row_a, row_b] (split (lower ''zzz'')) = [0, 0]"
    by code_simp
  then show ?thesis
    by (simp add: raw_scores_def init_engine_def)
qed

lemma keyword_example_raw:
  "raw_scores (init_engine [row_a, row_b, row_c] None None) ''python coding'' = [2, 0, 1]"
proof -
  have "keyword_scores [row_a, row_b, row_c] (split (lower ''python coding'')) = [2, 0, 1]"
    by code_simp
  then show ?thesis
    by (simp add: raw_scores_def init_engine_def)
qed

lemma keyword_example_ranked:
  "semantic_search insertion_numpy (init_engine [row_a, row_b, row_c] None None) ''python coding'' 2
     = Inr [\<lparr>index = 0, entry = row_a, relevance_score = 100\<rparr>,
            \<lparr>index = 2, entry = row_c, relevance_score = 50\<rparr>]"
  unfolding fallback_search by (rule keyword_example_search)

text \<open>
  \<^bold>\<open>C4\<close>, as amended. In both strategies a result list is in descending order of the
  sorted score (the cosine similarity, or the number of matching terms) and of the
  relevance score, and no row of the catalog comes twice, whatever order
  \<^verbatim>\<open>np.argsort\<close> gives to equal scores. Nothing is said of the order of two rows with
  equal scores.
\<close>

theorem results_order:
  assumes "numpy_ok np" "vectors_regular e query" "semantic_search np e query top_k = Inr rs"
    "i < j" "j < length rs"
  shows "raw_scores e query ! index (rs ! j) \<le> raw_scores e query ! index (rs ! i) \<and>
         relevance_score (rs ! j) \<le> relevance_score (rs ! i) \<and>
         index (rs ! i) \<noteq> index (rs ! j) \<and>
         index (rs ! i) < length (catalog e) \<and> index (rs ! j) < length (catalog e)"
proof (cases "model e = None \<or> embeddings e = None")
  case True
  define s where "s = keyword_scores (catalog e) (split (lower query))"
  have raw: "raw_scores e query = map real_of_int s"
    using True by (auto simp: raw_scores_def s_def split: option.splits)
  have ls: "length s = length (catalog e)"
    unfolding s_def by (rule keyword_scores_length)
  have ks: "keyword_search np e query top_k = Inr rs"
    using assms(3) semantic_search_fallback [OF True] by simp
  have ne: "catalog e \<noteq> []"
    using ks keyword_search_empty [where e = e and np = np and query = query and top_k = top_k]
    by auto
  have rs: "rs = map (\<lambda>i. \<lparr>index = i, entry = catalog e ! i,
      relevance_score = round1 (real_of_int (s ! i) / real_of_int (max_score_of s) * 100)\<rparr>)
        (slice_to top_k (rev (argsort_int np s)))"
    unfolding s_def using ks
    unfolding keyword_search_nonempty [OF ne, where np = np and query = query and top_k = top_k]
    by (rule sum.inject(2) [THEN iffD1, symmetric])
  have g: "\<forall>a b. a \<le> b \<longrightarrow> round1 (real_of_int a / real_of_int (max_score_of s) * 100)
      \<le> round1 (real_of_int b / real_of_int (max_score_of s) * 100)"
    by (intro allI impI keyword_relevance_mono max_score_of_pos)
  have h: "\<forall>a b. a \<le> b \<longrightarrow> real_of_int a \<le> real_of_int b"
    by simp
  note r = ranked_results_order [where g = "\<lambda>a. round1 (real_of_int a / real_of_int (max_score_of s) * 100)"
      and h = real_of_int, OF argsort_int_ok [OF assms(1)] rs g h assms(4,5)]
  have b: "index (rs ! i) < length s" "index (rs ! j) < length s"
    using r by simp_all
  then have "raw_scores e query ! index (rs ! i) = real_of_int (s ! index (rs ! i))"
    "raw_scores e query ! index (rs ! j) = real_of_int (s ! index (rs ! j))"
    unfolding raw by (simp_all only: nth_map)
  with r b show ?thesis
    unfolding ls by simp
next
  case False
  then obtain encode embs where m: "model e = Some encode" "embeddings e = Some embs"
    by auto
  define s where "s = cosine_similarities embs (encode query)"
  have raw: "raw_scores e query = s"
    using m by (simp add: raw_scores_def s_def)
  have len: "length embs = length (catalog e)"
    using assms(2) m by (simp add: vectors_regular_def)
  have ls: "length s = length (catalog e)"
    unfolding s_def by (simp add: cosine_similarities_def len)
  have rs: "rs = map (\<lambda>i. \<lparr>index = i, entry = catalog e ! i,
      relevance_score = round1 (s ! i * 100)\<rparr>) (slice_to top_k (rev (argsort_float np s)))"
    unfolding s_def using assms(3)
    unfolding semantic_search_vector [OF assms(1) m len, of query top_k]
    by (rule sum.inject(2) [THEN iffD1, symmetric])
  have g: "\<forall>a b::real. a \<le> b \<longrightarrow> round1 (a * 100) \<le> round1 (b * 100)"
    by (simp add: round1_mono)
  have h: "\<forall>a b::real. a \<le> b \<longrightarrow> a \<le> b"
    by simp
  note r = ranked_results_order [where g = "\<lambda>a. round1 (a * 100)" and h = "\<lambda>a. a",
      OF argsort_float_ok [OF assms(1)] rs g h assms(4,5)]
  then show ?thesis
    unfolding raw ls by simp
qed

theorem results_order_witness:
  "numpy_ok insertion_numpy \<and>
   vectors_regular (init_engine [row_a, row_b, row_c] None None) ''python coding'' \<and>
   semantic_search insertion_numpy (init_engine [row_a, row_b, row_c] None None) ''python coding'' 2
     = Inr [\<lparr>index = 0, entry = row_a, relevance_score = 100\<rparr>,
            \<lparr>index = 2, entry = row_c, relevance_score = 50\<rparr>] \<and>
   (0::nat) < 1 \<and>
   1 < length [\<lparr>index = 0, entry = row_a, relevance_score = 100\<rparr>,
               \<lparr>index = 2, entry = row_c, relevance_score = 50\<rparr>] \<and>
   raw_scores (init_engine [row_a, row_b, row_c] None None) ''python coding'' = [2, 0, 1] \<and>
   [2, 0, 1] ! 2 \<le> ([2, 0, 1] ! 0 :: real) \<and>
   (50::real) \<le> 100 \<and> (0::nat) \<noteq> 2"
proof -
  have l: "1 < length [\<lparr>index = 0, entry = row_a, relevance_score = 100\<rparr>,
                       \<lparr>index = 2, entry = row_c, relevance_score = 50\<rparr>]"
    by simp
  note t = results_order [OF insertion_numpy_ok fallback_regular keyword_example_ranked
      zero_less_one l]
  have "[2, 0, 1] ! 2 \<le> ([2, 0, 1] ! 0 :: real) \<and> (50::real) \<le> 100 \<and> (0::nat) \<noteq> 2"
    using t unfolding keyword_example_raw by simp
  then show ?thesis
    by (rule conjI [OF insertion_numpy_ok conjI [OF fallback_regular
          conjI [OF keyword_example_ranked conjI [OF zero_less_one conjI [OF l
          conjI [OF keyword_example_raw]]]]]])
qed

text \<open>
  \<^bold>\<open>C4\<close>, as stated, fails: with an \<^verbatim>\<open>argsort\<close> that leaves the two equal scores of a
  catalog of two rows in place, the reversal \<^verbatim>\<open>[::-1]\<close> puts the later row of the
  catalog first.
\<close>

theorem tie_in_reverse_catalog_order:
  "numpy_ok insertion_numpy \<and>
   semantic_search insertion_numpy (init_engine [row_a, row_b] None None) ''zzz'' 2
     = Inr [\<lparr>index = 1, entry = row_b, relevance_score = 0\<rparr>,
            \<lparr>index = 0, entry = row_a, relevance_score = 0\<rparr>] \<and>
   raw_scores (init_engine [row_a, row_b] None None) ''zzz'' = [0, 0] \<and>
   relevance_score \<lparr>index = 1, entry = row_b, relevance_score = 0\<rparr>
     = relevance_score \<lparr>index = 0, entry = row_a, relevance_score = 0\<rparr> \<and>
   index \<lparr>index = 0, entry = row_a, relevance_score = 0\<rparr>
     < index \<lparr>index = 1, entry = row_b, relevance_score = 0\<rparr>"
  by (rule conjI [OF insertion_numpy_ok conjI [OF keyword_example_tie
        conjI [OF keyword_example_tie_raw]]]) simp




subsection \<open>Runs of the pipeline\<close>

lemma read_url_no_url:
  "\<not> truthy url \<Longrightarrow> read_url w e query url test_types = (query, None, test_types)"
  by (simp add: read_url_def)

lemma get_recommendations_search:
  assumes "\<not> truthy url" "truthy query"
  shows "get_recommendations w np e query url max_duration test_types remote_only top_k =
    (case semantic_search np e (the query) (min (top_k * 2) 50) of
       Inl err \<Rightarrow> Inl err
     | Inr ranked \<Rightarrow>
         (let by_duration = (if truthy_int max_duration
                             then filter_by_duration ranked (the max_duration) else ranked);
              by_type = (if truthy test_types
                         then filter_by_test_type by_duration (the test_types) else by_duration);
              by_remote = (if remote_only
                           then filter_by_remote by_type remote_only else by_type);
              results = slice_to top_k by_remote
          in Inr \<lparr>recommendations = results, job_requirements = None,
                  search_query = query, total_found = length results\<rparr>))"
  unfolding get_recommendations_def read_url_no_url [OF assms(1)] using assms(2) by simp

lemma empty_catalog_raises:
  "get_recommendations w np (init_engine [] None gem) (Some ''python'') None None None False 10
     = Inl ValueError"
proof -
  have "semantic_search np (init_engine [] None gem) ''python'' (min (10 * 2) 50) = Inl ValueError"
    unfolding fallback_search by (rule keyword_search_empty) (simp add: init_engine_def)
  then show ?thesis
    by (simp add: get_recommendations_search truthy_def)
qed


lemma get_recommendations_no_query:
  assumes "\<not> truthy url" "\<not> truthy query"
  shows "get_recommendations w np e query url max_duration test_types remote_only top_k =
    (let ranked = catalog_head e top_k;
         by_duration = (if truthy_int max_duration
                        then filter_by_duration ranked (the max_duration) else ranked);
         by_type = (if truthy test_types
                    then filter_by_test_type by_duration (the test_types) else by_duration);
         by_remote = (if remote_only
                      then filter_by_remote by_type remote_only else by_type);
         results = slice_to top_k by_remote
     in Inr \<lparr>recommendations = results, job_requirements = None,
             search_query = query, total_found = length results\<rparr>)"
  unfolding get_recommendations_def read_url_no_url [OF assms(1)] using assms(2) by simp

lemma empty_catalog_no_query:
  "get_recommendations w np (init_engine [] enc gem) None None max_duration test_types remote_only top_k
     = Inr \<lparr>recommendations = [], job_requirements = None, search_query = None, total_found = 0\<rparr>"
  by (simp add: get_recommendations_no_query truthy_def catalog_head_def init_engine_def
      slice_to_def filter_by_duration_def filter_by_test_type_def filter_by_remote_def)

text \<open>
  \<^bold>\<open>C5\<close> fails on the code. Without a search query an empty catalog gives the empty
  list and \<open>total_found = 0\<close> (\<open>empty_catalog_no_query\<close>), but with the query
  \<^verbatim>\<open>python\<close> and the encoder not loaded the pipeline raises: \<^verbatim>\<open>_keyword_search\<close>
  guards \<^verbatim>\<open>max(scores)\<close> against the value \<open>0\<close> and not against the empty list.
\<close>

theorem empty_catalog_query_raises:
  "get_recommendations offline insertion_numpy (init_engine [] None None)
       (Some ''python'') None None None False 10
     = Inl ValueError"
  by (rule empty_catalog_raises)

subsection \<open>The keyword strategy\<close>

lemma startswith_iff: "startswith s p \<longleftrightarrow> (\<exists>suf. s = p @ suf)"
  by (induction s p rule: startswith.induct) auto

lemma str_in_iff: "str_in t s \<longleftrightarrow> (\<exists>pre suf. s = pre @ t @ suf)"
proof (induction s)
  case Nil
  then show ?case by simp
next
  case (Cons c cs)
  show ?case
  proof
    assume "str_in t (c # cs)"
    then consider "startswith (c # cs) t" | "str_in t cs"
      by auto
    then show "\<exists>pre suf. c # cs = pre @ t @ suf"
    proof cases
      case 1
      then obtain suf where "c # cs = t @ suf"
        by (auto simp: startswith_iff)
      then have "c # cs = [] @ t @ suf"
        by simp
      then show ?thesis
        by blast
    next
      case 2
      then obtain pre suf where "cs = pre @ t @ suf"
        using Cons.IH by blast
      then have "c # cs = (c # pre) @ t @ suf"
        by simp
      then show ?thesis
        by blast
    qed
  next
    assume "\<exists>pre suf. c # cs = pre @ t @ suf"
    then obtain pre suf where eq: "c # cs = pre @ t @ suf"
      by blast
    show "str_in t (c # cs)"
    proof (cases pre)
      case Nil
      with eq have "startswith (c # cs) t"
        by (auto simp: startswith_iff)
      then show ?thesis
        by simp
    next
      case (Cons p ps)
      with eq have "cs = ps @ t @ suf"
        by simp
      then have "str_in t cs"
        using Cons.IH by blast
      then show ?thesis
        by simp
    qed
  qed
qed

lemma split_acc_blank: "list_all isspace s \<Longrightarrow> split_acc [] s = []"
  by (induction s) simp_all

lemma lower_char_fixes_space: "isspace c \<Longrightarrow> lower_char c = c"
proof -
  assume sp: "isspace c"
  have "c \<notin> set ''ABCDEFGHIJKLMNOPQRSTUVWXYZ''"
  proof
    assume "c \<in> set ''ABCDEFGHIJKLMNOPQRSTUVWXYZ''"
    then have "\<not> isspace c"
      by (auto simp: isspace_def)
    with sp show False
      by simp
  qed
  then have "map_of (zip ''ABCDEFGHIJKLMNOPQRSTUVWXYZ'' ''abcdefghijklmnopqrstuvwxyz'') c = None"
    by (subst map_of_zip_is_None) simp_all
  then show ?thesis
    by (simp only: lower_char_def option.case)
qed

lemma blank_query_terms: "list_all isspace query \<Longrightarrow> split (lower query) = []"
proof -
  assume "list_all isspace query"
  then have "lower query = query"
    unfolding lower_def by (induction query) (simp_all add: lower_char_fixes_space)
  with \<open>list_all isspace query\<close> show ?thesis
    by (simp add: split_def split_acc_blank)
qed


lemma blank_query_zero_scores:
  assumes "numpy_ok np" "list_all isspace query" "catalog e \<noteq> []"
  shows "\<exists>rs. keyword_search np e query top_k = Inr rs \<and> (\<forall>r \<in> set rs. relevance_score r = 0)"
proof -
  have "keyword_scores (catalog e) (split (lower query)) = map (\<lambda>r. 0) (catalog e)"
    by (simp add: keyword_scores_def blank_query_terms [OF assms(2)])
  then have zero: "i < length (catalog e) \<Longrightarrow>
      keyword_scores (catalog e) (split (lower query)) ! i = 0" for i
    by simp
  define f where "f = (\<lambda>i. \<lparr>index = i, entry = catalog e ! i,
                   relevance_score =
                     round1 (real_of_int (keyword_scores (catalog e) (split (lower query)) ! i)
                       / real_of_int (max_score_of (keyword_scores (catalog e) (split (lower query))))
                       * 100)\<rparr>)"
  define top where
    "top = slice_to top_k (rev (argsort_int np (keyword_scores (catalog e) (split (lower query)))))"
  have ks: "keyword_search np e query top_k = Inr (map f top)"
    unfolding f_def top_def by (rule keyword_search_nonempty [OF assms(3)])
  have "relevance_score r = 0" if "r \<in> set (map f top)" for r
  proof -
    from that have "r \<in> f ` set top"
      by simp
    then obtain i where r: "r = f i" and i: "i \<in> set top"
      by (rule imageE)
    have "i \<in> set (rev (argsort_int np (keyword_scores (catalog e) (split (lower query)))))"
      using i unfolding top_def by (rule subsetD [OF set_slice_to])
    then have "i < length (catalog e)"
      by (simp add: is_argsort_set [OF argsort_int_ok [OF assms(1)]] keyword_scores_length)
    then show ?thesis
      by (simp add: r f_def zero round1_zero)
  qed
  with ks show ?thesis
    by simp
qed

text \<open>
  \<^bold>\<open>C6\<close> fails on the code, by the defect of C5. On a catalog with at least one row the
  lexical strategy is the one described (\<open>keyword_search_nonempty\<close>, with \<open>str_in_iff\<close> for
  the substring test; the score is also rounded to one decimal) and a query of white space
  only gives the score \<open>0\<close> to every row (\<open>blank_query_zero_scores\<close>). On the empty catalog
  the same query raises \<^verbatim>\<open>ValueError\<close>, from \<^verbatim>\<open>max(scores)\<close> on the empty list.
\<close>

theorem blank_query_empty_catalog_raises:
  "keyword_search insertion_numpy (init_engine [] None None) ''   '' 10 = Inl ValueError"
  by (rule keyword_search_empty) (simp add: init_engine_def)

subsection \<open>The duration filter\<close>

lemma filter_by_duration_inclusive:
  "set (filter_by_duration df m) = {r \<in> set df. duration (entry r) \<le> m}"
  by (simp add: filter_by_duration_def)

lemma duration_filter_applied:
  assumes "\<not> truthy url" "truthy query" "m \<noteq> 0"
    and "semantic_search np e (the query) (min (top_k * 2) 50) = Inr ranked"
  shows "get_recommendations w np e query url (Some m) None False top_k =
    Inr \<lparr>recommendations = slice_to top_k (filter_by_duration ranked m),
         job_requirements = None, search_query = query,
         total_found = length (slice_to top_k (filter_by_duration ranked m))\<rparr>"
  using assms(3,4)
  by (simp add: get_recommendations_search [OF assms(1,2)] truthy_def truthy_int_def Let_def)

lemma zero_duration_as_none:
  "get_recommendations w np e query url (Some 0) test_types remote_only top_k
     = get_recommendations w np e query url None test_types remote_only top_k"
  by (simp add: get_recommendations_def truthy_int_def split: prod.splits sum.splits)

lemma keyword_example_all:
  "semantic_search insertion_numpy (init_engine [row_a, row_b, row_c] None None) ''python coding'' 20
     = Inr [\<lparr>index = 0, entry = row_a, relevance_score = 100\<rparr>,
            \<lparr>index = 2, entry = row_c, relevance_score = 50\<rparr>,
            \<lparr>index = 1, entry = row_b, relevance_score = 0\<rparr>]"
  unfolding fallback_search by code_simp

lemma example_durations:
  "duration row_a = 30" "duration row_b = 60" "duration row_c = 45"
  by (simp_all add: row_a_def row_b_def row_c_def)

lemma zero_duration_example:
  "get_recommendations offline insertion_numpy (init_engine [row_a, row_b, row_c] None None)
       (Some ''python coding'') None (Some 0) None False 10
     = Inr \<lparr>recommendations = [\<lparr>index = 0, entry = row_a, relevance_score = 100\<rparr>,
                               \<lparr>index = 2, entry = row_c, relevance_score = 50\<rparr>,
                               \<lparr>index = 1, entry = row_b, relevance_score = 0\<rparr>],
            job_requirements = None, search_query = Some ''python coding'', total_found = 3\<rparr>"
  by (simp add: get_recommendations_search truthy_def truthy_int_def keyword_example_all
      slice_to_def)

lemma boundary_duration_example:
  "get_recommendations offline insertion_numpy (init_engine [row_a, row_b, row_c] None None)
       (Some ''python coding'') None (Some 45) None False 10
     = Inr \<lparr>recommendations = [\<lparr>index = 0, entry = row_a, relevance_score = 100\<rparr>,
                               \<lparr>index = 2, entry = row_c, relevance_score = 50\<rparr>],
            job_requirements = None, search_query = Some ''python coding'', total_found = 2\<rparr>"
  by (simp add: get_recommendations_search truthy_def truthy_int_def keyword_example_all
      slice_to_def filter_by_duration_def example_durations)

text \<open>
  \<^bold>\<open>C7\<close> fails on the code for the value \<open>0\<close>. The filter itself is inclusive
  (\<open>filter_by_duration_inclusive\<close>) and runs for every \<^verbatim>\<open>max_duration\<close> other than \<open>0\<close>
  (\<open>duration_filter_applied\<close>; with \<open>45\<close> the row of duration \<open>45\<close> is kept,
  \<open>boundary_duration_example\<close>). The guard \<^verbatim>\<open>if max_duration:\<close> takes \<open>0\<close> for a value
  not given (\<open>zero_duration_as_none\<close>): with \<^verbatim>\<open>max_duration = 0\<close> the rows of durations
  \<open>30\<close>, \<open>45\<close> and \<open>60\<close> are all returned, and the filter would have kept none of them.
\<close>

theorem zero_max_duration_not_applied:
  "get_recommendations offline insertion_numpy (init_engine [row_a, row_b, row_c] None None)
       (Some ''python coding'') None (Some 0) None False 10
     = Inr \<lparr>recommendations = [\<lparr>index = 0, entry = row_a, relevance_score = 100\<rparr>,
                               \<lparr>index = 2, entry = row_c, relevance_score = 50\<rparr>,
                               \<lparr>index = 1, entry = row_b, relevance_score = 0\<rparr>],
            job_requirements = None, search_query = Some ''python coding'', total_found = 3\<rparr> \<and>
   map (\<lambda>r. duration (entry r)) [\<lparr>index = 0, entry = row_a, relevance_score = 100\<rparr>,
                                  \<lparr>index = 2, entry = row_c, relevance_score = 50\<rparr>,
                                  \<lparr>index = 1, entry = row_b, relevance_score = 0\<rparr>] = [30, 45, 60] \<and>
   filter_by_duration [\<lparr>index = 0, entry = row_a, relevance_score = 100\<rparr>,
                       \<lparr>index = 2, entry = row_c, relevance_score = 50\<rparr>,
                       \<lparr>index = 1, entry = row_b, relevance_score = 0\<rparr>] 0 = []"
  by (rule conjI [OF zero_duration_example]) (simp add: filter_by_duration_def example_durations)

subsection \<open>Requirement extraction\<close>




lemma heuristic_example_several:
  "set (req_skills (heuristic_requirements ''JavaScript, Node.js and SQL; teamwork. Java!''))
     = {''javascript'', ''node.js'', ''sql'', ''java'', ''teamwork''}"
proof -
  have "req_skills (heuristic_requirements ''JavaScript, Node.js and SQL; teamwork. Java!'')
     = [''javascript'', ''node.js'', ''sql'', ''java'', ''teamwork'']"
    by code_simp
  then show ?thesis
    by (simp only: list.set)
qed

lemma heuristic_example_none:
  "heuristic_requirements ''We hire people''
     = \<lparr>req_skills = [], experience_level = ''mid'', req_test_types = [''Coding'', ''Cognitive''],
        duration_preference = ''medium'', key_responsibilities = []\<rparr>"
  by code_simp




subsection \<open>Recommendations without a search query\<close>













subsection \<open>Fetching a page\<close>

lemma startswith_append: "startswith (p @ s) p"
  by (simp add: startswith_iff)

lemma collapse_acc_spaces:
  "c \<in> set (collapse_acc b s) \<Longrightarrow> isspace c \<Longrightarrow> c = CHR '' ''"
  by (induction s arbitrary: b) (auto split: if_splits)

lemma collapse_ws_spaces:
  "c \<in> set (take n (collapse_ws s)) \<Longrightarrow> isspace c \<Longrightarrow> c = CHR '' ''"
  unfolding collapse_ws_def by (rule collapse_acc_spaces [OF in_set_takeD])

lemma collapse_acc_replicate:
  "\<not> isspace c \<Longrightarrow> collapse_acc b (replicate n c) = replicate n c"
  by (induction n arbitrary: b) simp_all

lemma long_page_truncated:
  "extract_text_from_url (serving (replicate 6000 CHR ''a'')) url = replicate 5000 CHR ''a''"
proof -
  have "\<not> isspace CHR ''a''"
    by (simp add: isspace_def)
  then show ?thesis
    by (simp add: extract_text_from_url_def serving_def collapse_ws_def collapse_acc_replicate)
qed

text \<open>
  \<^bold>\<open>C10\<close>. \<^const>\<open>extract_text_from_url\<close> returns a string on every input, no exception
  leaving it. When the request or the parsing raises, the string is
  \<^verbatim>\<open>Error extracting text: \<close> followed by the message; otherwise it is the text of the
  page with every run of white space replaced by one space, cut after \<open>5000\<close>
  characters.
\<close>

theorem extract_text_from_url_total:
  "(\<forall>msg. http_get w url = Inl msg \<longrightarrow>
      extract_text_from_url w url = ''Error extracting text: '' @ msg \<and>
      startswith (extract_text_from_url w url) ''Error extracting text:'') \<and>
   (\<forall>body msg. http_get w url = Inr body \<and> html_text w body = Inl msg \<longrightarrow>
      extract_text_from_url w url = ''Error extracting text: '' @ msg \<and>
      startswith (extract_text_from_url w url) ''Error extracting text:'') \<and>
   (\<forall>body text. http_get w url = Inr body \<and> html_text w body = Inr text \<longrightarrow>
      extract_text_from_url w url = take 5000 (collapse_ws text) \<and>
      length (extract_text_from_url w url) \<le> 5000)"
proof -
  have p: "startswith (''Error extracting text: '' @ msg) ''Error extracting text:''" for msg
    by simp
  have a: "\<forall>msg. http_get w url = Inl msg \<longrightarrow>
      extract_text_from_url w url = ''Error extracting text: '' @ msg \<and>
      startswith (extract_text_from_url w url) ''Error extracting text:''"
    using p by (simp add: extract_text_from_url_def)
  have b: "\<forall>body msg. http_get w url = Inr body \<and> html_text w body = Inl msg \<longrightarrow>
      extract_text_from_url w url = ''Error extracting text: '' @ msg \<and>
      startswith (extract_text_from_url w url) ''Error extracting text:''"
    using p by (simp add: extract_text_from_url_def)
  have c: "\<forall>body text. http_get w url = Inr body \<and> html_text w body = Inr text \<longrightarrow>
      extract_text_from_url w url = take 5000 (collapse_ws text) \<and>
      length (extract_text_from_url w url) \<le> 5000"
    by (simp add: extract_text_from_url_def)
  show ?thesis
    by (rule conjI [OF a conjI [OF b c]])
qed

theorem extract_text_from_url_total_witness:
  "http_get offline ''http://jobs'' = Inl ''connection refused'' \<and>
   extract_text_from_url offline ''http://jobs'' = ''Error extracting text: connection refused'' \<and>
   (http_get \<lparr>http_get = (\<lambda>url. Inr ''<html>''), html_text = (\<lambda>body. Inl ''no document'')\<rparr>
        ''http://jobs'' = Inr ''<html>'' \<and>
    html_text \<lparr>http_get = (\<lambda>url. Inr ''<html>''), html_text = (\<lambda>body. Inl ''no document'')\<rparr>
        ''<html>'' = Inl ''no document'') \<and>
   extract_text_from_url
       \<lparr>http_get = (\<lambda>url. Inr ''<html>''), html_text = (\<lambda>body. Inl ''no document'')\<rparr> ''http://jobs''
     = ''Error extracting text: no document'' \<and>
   (http_get (serving ''Senior   Python  developer'') ''http://jobs'' = Inr ''<html>'' \<and>
    html_text (serving ''Senior   Python  developer'') ''<html>''
      = Inr ''Senior   Python  developer'') \<and>
   extract_text_from_url (serving ''Senior   Python  developer'') ''http://jobs''
     = ''Senior Python developer'' \<and>
   length (extract_text_from_url (serving ''Senior   Python  developer'') ''http://jobs'') \<le> 5000"
proof -
  have h1: "http_get offline ''http://jobs'' = Inl ''connection refused''"
    by (simp add: offline_def)
  have h2: "http_get \<lparr>http_get = (\<lambda>url. Inr ''<html>''), html_text = (\<lambda>body. Inl ''no document'')\<rparr>
        ''http://jobs'' = Inr ''<html>'' \<and>
    html_text \<lparr>http_get = (\<lambda>url. Inr ''<html>''), html_text = (\<lambda>body. Inl ''no document'')\<rparr>
        ''<html>'' = Inl ''no document''"
    by simp
  have h3: "http_get (serving ''Senior   Python  developer'') ''http://jobs'' = Inr ''<html>'' \<and>
    html_text (serving ''Senior   Python  developer'') ''<html>''
      = Inr ''Senior   Python  developer''"
    by (simp add: serving_def)
  have c: "take 5000 (collapse_ws ''Senior   Python  developer'') = ''Senior Python developer''"
    by code_simp
  note r1 = extract_text_from_url_total [THEN conjunct1, THEN spec, THEN mp, OF h1,
      THEN conjunct1]
  note r2 = extract_text_from_url_total [THEN conjunct2, THEN conjunct1, THEN spec, THEN spec,
      THEN mp, OF h2, THEN conjunct1]
  note r3 = extract_text_from_url_total [THEN conjunct2, THEN conjunct2, THEN spec, THEN spec,
      THEN mp, OF h3]
  have e1: "extract_text_from_url offline ''http://jobs''
      = ''Error extracting text: connection refused''"
    using r1 by simp
  have e2: "extract_text_from_url
       \<lparr>http_get = (\<lambda>url. Inr ''<html>''), html_text = (\<lambda>body. Inl ''no document'')\<rparr> ''http://jobs''
     = ''Error extracting text: no document''"
    using r2 by simp
  have e3: "extract_text_from_url (serving ''Senior   Python  developer'') ''http://jobs''
     = ''Senior Python developer''"
    using conjunct1 [OF r3] unfolding c .
  show ?thesis
    by (rule conjI [OF h1 conjI [OF e1 conjI [OF h2 conjI [OF e2 conjI [OF h3
          conjI [OF e3 conjunct2 [OF r3]]]]]]])
qed


end
